theory Spec2Isabelle
  imports Complex_Main "HOL-Library.Word"
begin

section \<open>Conventions of the embedding\<close>

text \<open>
  The agent is C code. A value of type \<open>string\<close> stands for the contents of a
  NUL-terminated C string: the bytes before the terminator, in order. A loop of the
  source that scans to the terminator (\<^verbatim>\<open>for (c = s; *c; c++)\<close>) is therefore a
  recursion to the end of the list. A \<^verbatim>\<open>char *\<close> that may be \<^verbatim>\<open>NULL\<close> is a
  \<open>string option\<close>. Where the source tests the result of \<^verbatim>\<open>malloc\<close>, the outcome of
  the allocation is a boolean argument of the model, so both branches are present.

  The global variables of the three source files are the fields of one record, which
  every function that touches them takes and returns. What the environment decides during
  a call (allocations, the clock, the stack walk, the random draw) is an argument of the
  model; what a call asks of the outside (a frame for libwebsockets, a signal action, an
  exit) is returned as a list of events in the order of the source. What the C
  implementation fixes (the width of \<^verbatim>\<open>unsigned long\<close>, the signedness of \<^verbatim>\<open>char\<close>) is a
  parameter as well. All definitions come first, file by file; the properties follow.
\<close>

section \<open>The message queue (src/transport/websocket.c, include/aivory/types.h)\<close>

text \<open>\<^verbatim>\<open>#define AIVORY_MESSAGE_QUEUE_SIZE 100\<close> (include/aivory/config.h).\<close>

definition AIVORY_MESSAGE_QUEUE_SIZE :: int where
  "AIVORY_MESSAGE_QUEUE_SIZE = 100"

text \<open>
  \<^verbatim>\<open>aivory_queue_t\<close>: the singly linked chain from \<^verbatim>\<open>head\<close> to \<^verbatim>\<open>tail\<close> is the list
  \<open>entries\<close> (\<^verbatim>\<open>head\<close> is its first element and is \<^verbatim>\<open>NULL\<close> exactly when the list is
  empty; \<^verbatim>\<open>tail\<close> is its last element). An element of the list is the \<^verbatim>\<open>json\<close> pointer
  of that entry: \<open>Some\<close> text, or \<open>None\<close> for \<^verbatim>\<open>NULL\<close>, which an entry holds when the
  unchecked \<^verbatim>\<open>strdup\<close> of \<^verbatim>\<open>queue_push\<close> failed. \<open>count\<close> and \<open>max_size\<close> are the two
  \<^verbatim>\<open>int\<close> fields, kept apart from the chain as in the source.
\<close>

record aivory_queue_t =
  entries :: "string option list"
  count :: int
  max_size :: int

text \<open>
  \<^verbatim>\<open>queue_init\<close>. The mutex of the queue is not part of the state: every operation
  holds it from its first statement to its last, so the operations are atomic steps.
\<close>

definition queue_init :: aivory_queue_t where
  "queue_init = \<lparr>entries = [], count = 0, max_size = AIVORY_MESSAGE_QUEUE_SIZE\<rparr>"

text \<open>
  \<^verbatim>\<open>queue_push\<close>. The first argument is whether \<^verbatim>\<open>malloc\<close> of the new entry succeeds
  (the source appends only \<^verbatim>\<open>if (entry)\<close>), the second whether \<^verbatim>\<open>strdup(json)\<close>
  succeeds; its result is stored unchecked, so on failure the entry is linked with a
  \<^verbatim>\<open>NULL\<close> text and counted. The eviction of the head happens before both allocations
  and does not depend on them.
\<close>

definition queue_push :: "bool \<Rightarrow> bool \<Rightarrow> aivory_queue_t \<Rightarrow> string \<Rightarrow> aivory_queue_t" where
  "queue_push entry_ok strdup_ok queue json =
     (let q1 = (if count queue \<ge> max_size queue \<and> entries queue \<noteq> []
                then queue\<lparr>entries := tl (entries queue), count := count queue - 1\<rparr>
                else queue)
      in if entry_ok
         then q1\<lparr>entries := entries q1 @ [if strdup_ok then Some json else None],
                 count := count q1 + 1\<rparr>
         else q1)"

text \<open>
  \<^verbatim>\<open>queue_pop\<close>: the returned \<^verbatim>\<open>char *\<close> and the queue after. The result is \<^verbatim>\<open>NULL\<close> on
  an empty queue, and also when the head entry holds a \<^verbatim>\<open>NULL\<close> text; in the second case
  the entry is unlinked all the same.
\<close>

definition queue_pop :: "aivory_queue_t \<Rightarrow> string option \<times> aivory_queue_t" where
  "queue_pop queue =
     (case entries queue of
        [] \<Rightarrow> (None, queue)
      | json # rest \<Rightarrow> (json, queue\<lparr>entries := rest, count := count queue - 1\<rparr>))"

definition queue_has_messages :: "aivory_queue_t \<Rightarrow> bool" where
  "queue_has_messages queue = (count queue > 0)"

text \<open>
  An interleaving of pushes and pops is a list of operations, run from the queue that
  \<^verbatim>\<open>queue_init\<close> builds. \<open>Push json entry_ok strdup_ok\<close> is a call of \<^verbatim>\<open>queue_push\<close>
  with the outcomes of its two allocations.
\<close>

datatype queue_op = Push string bool bool | Pop

fun queue_step :: "aivory_queue_t \<Rightarrow> queue_op \<Rightarrow> aivory_queue_t" where
  "queue_step q (Push json entry_ok strdup_ok) = queue_push entry_ok strdup_ok q json"
| "queue_step q Pop = snd (queue_pop q)"

definition queue_run :: "queue_op list \<Rightarrow> aivory_queue_t" where
  "queue_run ops = foldl queue_step queue_init ops"

text \<open>
  Counts and histories of an interleaving: the records handed to its pushes, oldest
  first; the texts of the entries that its pushes linked (pushes whose entry was
  allocated), oldest first; the number of pushes, of pushes whose entry allocation
  failed, and of pops.
\<close>

fun records :: "queue_op list \<Rightarrow> string list" where
  "records [] = []"
| "records (Push json entry_ok strdup_ok # ops) = json # records ops"
| "records (Pop # ops) = records ops"

fun stored :: "queue_op list \<Rightarrow> string option list" where
  "stored [] = []"
| "stored (Push json entry_ok strdup_ok # ops) =
     (if entry_ok then (if strdup_ok then Some json else None) # stored ops else stored ops)"
| "stored (Pop # ops) = stored ops"

fun pushes :: "queue_op list \<Rightarrow> nat" where
  "pushes [] = 0"
| "pushes (Push json entry_ok strdup_ok # ops) = Suc (pushes ops)"
| "pushes (Pop # ops) = pushes ops"

fun failed_pushes :: "queue_op list \<Rightarrow> nat" where
  "failed_pushes [] = 0"
| "failed_pushes (Push json entry_ok strdup_ok # ops) =
     (if entry_ok then failed_pushes ops else Suc (failed_pushes ops))"
| "failed_pushes (Pop # ops) = failed_pushes ops"

fun pops :: "queue_op list \<Rightarrow> nat" where
  "pops [] = 0"
| "pops (Push json entry_ok strdup_ok # ops) = pops ops"
| "pops (Pop # ops) = Suc (pops ops)"

text \<open>The \<open>k\<close> most recent elements of a history, oldest first.\<close>

definition most_recent :: "nat \<Rightarrow> 'a list \<Rightarrow> 'a list" where
  "most_recent k xs = drop (length xs - k) xs"

text \<open>
  The interleavings in which the count of live entries is the plain difference of pushes
  and pops, capped at the size of the queue: every allocation succeeds, no pop finds the
  queue empty, and no pop comes after an eviction. \<open>undisturbed_from q evicted ops\<close> runs
  \<open>ops\<close> from the queue \<open>q\<close>, with \<open>evicted\<close> telling whether a push has evicted a head
  so far; the test for an eviction is the one of \<^verbatim>\<open>queue_push\<close>.
\<close>

fun undisturbed_from :: "aivory_queue_t \<Rightarrow> bool \<Rightarrow> queue_op list \<Rightarrow> bool" where
  "undisturbed_from q evicted [] = True"
| "undisturbed_from q evicted (Push json entry_ok strdup_ok # ops) =
     (entry_ok \<and> strdup_ok
      \<and> undisturbed_from (queue_push entry_ok strdup_ok q json)
           (evicted \<or> (count q \<ge> max_size q \<and> entries q \<noteq> [])) ops)"
| "undisturbed_from q evicted (Pop # ops) =
     (entries q \<noteq> [] \<and> \<not> evicted \<and> undisturbed_from (snd (queue_pop q)) evicted ops)"

definition undisturbed :: "queue_op list \<Rightarrow> bool" where
  "undisturbed ops = undisturbed_from queue_init False ops"

text \<open>
  Auxiliary predicates for the proofs: a list is the tail end of a history; the invariant
  that every run of the queue keeps; and the invariant of undisturbed runs, where \<open>d\<close> is
  the number of pushes less the number of pops so far.
\<close>

definition suffix_of :: "'a list \<Rightarrow> 'a list \<Rightarrow> bool" where
  "suffix_of xs h \<longleftrightarrow> length xs \<le> length h \<and> xs = drop (length h - length xs) h"

definition queue_inv :: "aivory_queue_t \<Rightarrow> queue_op list \<Rightarrow> bool" where
  "queue_inv q ops \<longleftrightarrow>
     count q = int (length (entries q)) \<and> max_size q = 100 \<and>
     length (entries q) \<le> 100 \<and>
     suffix_of (entries q) (stored ops) \<and>
     min (length (stored ops)) 100 \<le> length (entries q) + pops ops + failed_pushes ops"

definition undisturbed_inv :: "aivory_queue_t \<Rightarrow> bool \<Rightarrow> nat \<Rightarrow> bool" where
  "undisturbed_inv q evicted d \<longleftrightarrow>
     count q = int (length (entries q)) \<and> max_size q = 100 \<and>
     length (entries q) = min d 100 \<and> (evicted \<longrightarrow> 100 \<le> d) \<and>
     (\<not> evicted \<longrightarrow> d \<le> 100)"

section \<open>Escaping and fingerprinting (src/capture/backtrace.c)\<close>

subsection \<open>\<^verbatim>\<open>escape_json_string\<close>\<close>

text \<open>
  The \<^verbatim>\<open>switch\<close> of the loop body: the bytes appended at \<^verbatim>\<open>dst\<close> for the source byte
  \<^verbatim>\<open>*src\<close>. The cases are in the order of the source: double quote (0x22), backslash
  (0x5C), newline (0x0A), carriage return (0x0D), tab (0x09), default.
\<close>

definition escape_switch :: "char \<Rightarrow> string" where
  "escape_switch c =
     (if c = CHR 0x22 then [CHR 0x5C, CHR 0x22]
      else if c = CHR 0x5C then [CHR 0x5C, CHR 0x5C]
      else if c = CHR 0x0A then [CHR 0x5C, CHR ''n'']
      else if c = CHR 0x0D then [CHR 0x5C, CHR ''r'']
      else if c = CHR 0x09 then [CHR 0x5C, CHR ''t'']
      else [c])"

text \<open>
  The loop \<^verbatim>\<open>for (const char *src = str; *src; src++)\<close>: the first argument is what is
  left to read at \<^verbatim>\<open>src\<close>, the second what has been written up to \<^verbatim>\<open>dst\<close>.
\<close>

fun escape_loop :: "string \<Rightarrow> string \<Rightarrow> string" where
  "escape_loop [] dst = dst"
| "escape_loop (c # src) dst = escape_loop src (dst @ escape_switch c)"

text \<open>
  \<^verbatim>\<open>escape_json_string\<close>: a \<^verbatim>\<open>NULL\<close> argument gives the empty string, and so does a
  failed \<^verbatim>\<open>malloc\<close> of the output buffer (first argument \<open>False\<close>).
\<close>

definition escape_json_string :: "bool \<Rightarrow> string option \<Rightarrow> string" where
  "escape_json_string escaped_ok str =
     (case str of
        None \<Rightarrow> []
      | Some s \<Rightarrow> if \<not> escaped_ok then [] else escape_loop s [])"

text \<open>
  The escaping as the specification words it, to compare with the loop: backslash,
  double quote, newline, carriage return and tab become the two-character escapes, every
  other byte stands for itself.
\<close>

definition spec_escape_byte :: "char \<Rightarrow> string" where
  "spec_escape_byte c =
     (if c = CHR 0x5C then [CHR 0x5C, CHR 0x5C]
      else if c = CHR 0x22 then [CHR 0x5C, CHR 0x22]
      else if c = CHR 0x0A then [CHR 0x5C, CHR ''n'']
      else if c = CHR 0x0D then [CHR 0x5C, CHR ''r'']
      else if c = CHR 0x09 then [CHR 0x5C, CHR ''t'']
      else [c])"

definition spec_escape :: "string \<Rightarrow> string" where
  "spec_escape s = concat (map spec_escape_byte s)"

text \<open>
  Modelled from the spec: the decoder of the escaped form. The repository has no decoder
  (the collecting service decodes); this one undoes the five two-character escapes the
  specification lists and passes every other byte through. A backslash before any other
  byte, which the encoder never produces, yields that byte.
\<close>

fun spec_unescape :: "string \<Rightarrow> string" where
  "spec_unescape [] = []"
| "spec_unescape [c] = [c]"
| "spec_unescape (c # d # rest) =
     (if c = CHR 0x5C
      then (if d = CHR ''n'' then CHR 0x0A
            else if d = CHR ''r'' then CHR 0x0D
            else if d = CHR ''t'' then CHR 0x09
            else d) # spec_unescape rest
      else c # spec_unescape (d # rest))"

subsection \<open>\<^verbatim>\<open>aivory_calculate_fingerprint\<close>\<close>

text \<open>
  Two properties of the C implementation decide the value of the hash: the width of
  \<^verbatim>\<open>unsigned long\<close> and whether plain \<^verbatim>\<open>char\<close> is signed. Both are fixed by the
  platform's ABI, so the model takes them as a parameter. The record also carries the two
  strings that the \<^verbatim>\<open>#ifdef\<close> chains of src/agent.c select for the platform and the
  architecture.
\<close>

record platform =
  long_bits :: nat
  char_signed :: bool
  platform_name :: string
  arch_name :: string

text \<open>
  The ABIs of platforms that the source's own \<^verbatim>\<open>#ifdef\<close> chains name: Linux on x86-64
  (LP64, \<^verbatim>\<open>char\<close> signed), Linux on i386 (ILP32, \<^verbatim>\<open>char\<close> signed) and Linux on
  AArch64 (LP64, \<^verbatim>\<open>char\<close> unsigned).
\<close>

definition linux_x86_64 :: platform where
  "linux_x86_64 = \<lparr>long_bits = 64, char_signed = True,
     platform_name = ''linux'', arch_name = ''x86_64''\<rparr>"

definition linux_i386 :: platform where
  "linux_i386 = \<lparr>long_bits = 32, char_signed = True,
     platform_name = ''linux'', arch_name = ''x86''\<rparr>"

definition linux_aarch64 :: platform where
  "linux_aarch64 = \<lparr>long_bits = 64, char_signed = False,
     platform_name = ''linux'', arch_name = ''arm64''\<rparr>"

text \<open>The value of \<^verbatim>\<open>*c\<close> after integer promotion.\<close>

definition char_value :: "platform \<Rightarrow> char \<Rightarrow> int" where
  "char_value pf c =
     (if char_signed pf \<and> (of_char c :: int) \<ge> 128 then of_char c - 256 else of_char c)"

text \<open>Arithmetic on \<^verbatim>\<open>unsigned long\<close> wraps modulo \<open>2 ^ long_bits\<close>.\<close>

definition wrap_ulong :: "platform \<Rightarrow> int \<Rightarrow> int" where
  "wrap_ulong pf x = x mod 2 ^ long_bits pf"

text \<open>One round: \<^verbatim>\<open>hash = ((hash << 5) + hash) + *c;\<close>\<close>

definition hash_round :: "platform \<Rightarrow> int \<Rightarrow> char \<Rightarrow> int" where
  "hash_round pf hash c =
     wrap_ulong pf (wrap_ulong pf (wrap_ulong pf (hash * 2 ^ 5) + hash) + char_value pf c)"

text \<open>The loop over the type label: \<^verbatim>\<open>for (const char *c = type; *c; c++)\<close>.\<close>

fun hash_type :: "platform \<Rightarrow> int \<Rightarrow> string \<Rightarrow> int" where
  "hash_type pf hash [] = hash"
| "hash_type pf hash (c # cs) = hash_type pf (hash_round pf hash c) cs"

text \<open>
  The loop over the backtrace,
  \<^verbatim>\<open>for (const char *c = backtrace; *c && chars < 500; c++, chars++)\<close>, with the counter
  \<open>chars\<close> as an argument.
\<close>

fun hash_backtrace :: "platform \<Rightarrow> int \<Rightarrow> int \<Rightarrow> string \<Rightarrow> int" where
  "hash_backtrace pf hash chars [] = hash"
| "hash_backtrace pf hash chars (c # cs) =
     (if chars < 500 then hash_backtrace pf (hash_round pf hash c) (chars + 1) cs else hash)"

text \<open>
  \<^verbatim>\<open>snprintf(fingerprint, 17, "%016lx", hash)\<close>: lower-case hexadecimal digits, most
  significant first, padded on the left with zeros to at least 16 characters; at most 16
  characters fit before the terminator.
\<close>

definition hex_digit :: "nat \<Rightarrow> char" where
  "hex_digit d = ''0123456789abcdef'' ! (d mod 16)"

fun hex_of_nat :: "nat \<Rightarrow> string" where
  "hex_of_nat n = (if n < 16 then [hex_digit n] else hex_of_nat (n div 16) @ [hex_digit (n mod 16)])"

declare hex_of_nat.simps [simp del]

definition printf_016lx :: "int \<Rightarrow> string" where
  "printf_016lx hash =
     (let digits = hex_of_nat (nat hash)
      in replicate (16 - length digits) CHR ''0'' @ digits)"

definition snprintf_17_016lx :: "int \<Rightarrow> string" where
  "snprintf_17_016lx hash = take 16 (printf_016lx hash)"

text \<open>
  \<^verbatim>\<open>aivory_calculate_fingerprint\<close>. Either argument may be \<^verbatim>\<open>NULL\<close> and is then
  skipped. The second argument of the model is whether \<^verbatim>\<open>malloc(17)\<close> succeeds; the
  function returns \<^verbatim>\<open>NULL\<close> when it does not.
\<close>

definition aivory_calculate_fingerprint ::
  "platform \<Rightarrow> bool \<Rightarrow> string option \<Rightarrow> string option \<Rightarrow> string option" where
  "aivory_calculate_fingerprint pf fingerprint_ok type backtrace =
     (let hash0 = wrap_ulong pf 5381;
          hash1 = (case type of None \<Rightarrow> hash0 | Some t \<Rightarrow> hash_type pf hash0 t);
          hash2 = (case backtrace of None \<Rightarrow> hash1 | Some b \<Rightarrow> hash_backtrace pf hash1 0 b)
      in if fingerprint_ok then Some (snprintf_17_016lx hash2) else None)"

text \<open>
  The hash as the specification words it: start at 5381, and for each input byte \<open>b\<close>,
  taken as a value from 0 to 255, \<open>h \<leftarrow> h * 33 + b\<close> on 64 bits; the input is the type
  label followed by the first 500 characters of the stack trace.
\<close>

definition spec_hash :: "string \<Rightarrow> int" where
  "spec_hash s = foldl (\<lambda>h b. (h * 33 + of_char b) mod 2 ^ 64) 5381 s"

definition spec_fingerprint :: "string \<Rightarrow> string \<Rightarrow> string" where
  "spec_fingerprint type stack = snprintf_17_016lx (spec_hash (type @ take 500 stack))"

text \<open>
  The hash in closed form, for the proofs: one \<open>foldl\<close> over the bytes with the round
  \<open>h * 33 + c\<close> reduced modulo \<open>2 ^ long_bits\<close>; and a \<^verbatim>\<open>char *\<close> read as the empty
  string when it is \<^verbatim>\<open>NULL\<close>.
\<close>

definition hash_bytes :: "platform \<Rightarrow> int \<Rightarrow> string \<Rightarrow> int" where
  "hash_bytes pf h s = foldl (\<lambda>h c. (h * 33 + char_value pf c) mod 2 ^ long_bits pf) h s"

definition str_or_empty :: "string option \<Rightarrow> string" where
  "str_or_empty p = (case p of None \<Rightarrow> [] | Some s \<Rightarrow> s)"

text \<open>The lower-case hexadecimal digits, as a set.\<close>

definition hex_chars :: "char set" where
  "hex_chars = set ''0123456789abcdef''"

section \<open>Configuration and agent state (include/aivory/monitor.h, include/aivory/config.h)\<close>

text \<open>
  A C \<^verbatim>\<open>double\<close> is a finite number, an infinity or a NaN. The agent only compares the
  sampling rate, and IEEE comparisons of finite values are exact, so the finite values
  are carried as reals. Every comparison with a NaN is false.
\<close>

datatype double = Double_finite real | Double_pinf | Double_ninf | Double_nan

fun double_le :: "double \<Rightarrow> double \<Rightarrow> bool" where
  "double_le Double_nan y = False"
| "double_le x Double_nan = False"
| "double_le Double_ninf y = True"
| "double_le x Double_pinf = True"
| "double_le (Double_finite a) (Double_finite b) = (a \<le> b)"
| "double_le x y = False"

definition double_ge :: "double \<Rightarrow> double \<Rightarrow> bool" where
  "double_ge x y = double_le y x"

fun double_lt :: "double \<Rightarrow> double \<Rightarrow> bool" where
  "double_lt Double_nan y = False"
| "double_lt x Double_nan = False"
| "double_lt x y = (\<not> double_le y x)"

text \<open>
  \<^verbatim>\<open>struct aivory_config\<close>. The three \<^verbatim>\<open>const char *\<close> fields may be \<^verbatim>\<open>NULL\<close> (they are
  in the zero-initialised global agent).
\<close>

record aivory_config_t =
  api_key :: "string option"
  backend_url :: "string option"
  environment :: "string option"
  sampling_rate :: double
  max_capture_depth :: int
  max_string_length :: int
  max_collection_size :: int
  debug :: bool
  capture_signals :: bool

text \<open>
  \<^verbatim>\<open>struct aivory_agent\<close>. The \<^verbatim>\<open>void *connection\<close> is only ever \<^verbatim>\<open>NULL\<close> or the address
  of the one connection object, so it is carried as the boolean "not \<^verbatim>\<open>NULL\<close>".
\<close>

record aivory_agent_t =
  config :: aivory_config_t
  agent_id :: "string option"
  hostname :: "string option"
  custom_context :: "string option"
  user_json :: "string option"
  connection :: bool
  initialized :: bool
  connected :: bool

text \<open>\<^verbatim>\<open>static aivory_agent_t g_agent = {0};\<close> A zero \<^verbatim>\<open>double\<close> is the finite value 0.\<close>

definition zero_config :: aivory_config_t where
  "zero_config = \<lparr>api_key = None, backend_url = None, environment = None,
     sampling_rate = Double_finite 0, max_capture_depth = 0, max_string_length = 0,
     max_collection_size = 0, debug = False, capture_signals = False\<rparr>"

definition zero_agent :: aivory_agent_t where
  "zero_agent = \<lparr>config = zero_config, agent_id = None, hostname = None,
     custom_context = None, user_json = None, connection = False, initialized = False,
     connected = False\<rparr>"

text \<open>
  \<^verbatim>\<open>printf\<close> conversions used by the builders. \<^verbatim>\<open>%s\<close> with a \<^verbatim>\<open>NULL\<close> argument is
  undefined in C; the model prints what glibc prints. \<^verbatim>\<open>%ld\<close> and \<^verbatim>\<open>%d\<close> print a
  signed decimal.
\<close>

definition printf_s :: "string option \<Rightarrow> string" where
  "printf_s p = (case p of None \<Rightarrow> ''(null)'' | Some s \<Rightarrow> s)"

definition dec_digit :: "nat \<Rightarrow> char" where
  "dec_digit d = ''0123456789'' ! (d mod 10)"

fun dec_of_nat :: "nat \<Rightarrow> string" where
  "dec_of_nat n = (if n < 10 then [dec_digit n] else dec_of_nat (n div 10) @ [dec_digit (n mod 10)])"

declare dec_of_nat.simps [simp del]

definition printf_d :: "int \<Rightarrow> string" where
  "printf_d i = (if i < 0 then CHR ''-'' # dec_of_nat (nat (- i)) else dec_of_nat (nat i))"

section \<open>The transport (src/transport/websocket.c)\<close>

subsection \<open>Connection state and callbacks\<close>

datatype aivory_connection_state_t =
  AIVORY_CONN_DISCONNECTED | AIVORY_CONN_CONNECTING | AIVORY_CONN_CONNECTED
  | AIVORY_CONN_AUTHENTICATED

text \<open>
  \<^verbatim>\<open>ws_connection_t\<close>: the fields the code reads or writes. The two libwebsockets
  pointers are carried as "not \<^verbatim>\<open>NULL\<close>".
\<close>

record ws_connection_t =
  state :: aivory_connection_state_t
  queue :: aivory_queue_t
  reconnect_attempts :: int
  should_stop :: bool
  authenticated :: bool
  lws_ctx :: bool
  wsi :: bool

text \<open>
  What the transport asks of the outside. A callback records each of its calls of
  \<^verbatim>\<open>ws_send_message\<close> with the text passed (\<open>Ws_send_message\<close>); what one such call
  does is the function \<open>ws_send_message\<close> below. \<open>Lws_write\<close> is a text that reaches
  \<^verbatim>\<open>lws_write\<close>, and \<open>Lws_callback_on_writable\<close> a call of that function.
\<close>

datatype ws_effect = Ws_send_message string | Lws_callback_on_writable | Lws_write string

text \<open>\<^verbatim>\<open>#define MAX_MESSAGE_SIZE 65536\<close>\<close>

definition MAX_MESSAGE_SIZE :: nat where
  "MAX_MESSAGE_SIZE = 65536"

text \<open>
  \<^verbatim>\<open>ws_send_message\<close>: the return value, and the text handed to \<^verbatim>\<open>lws_write\<close> if the
  call gets that far. The first three arguments are what the repository does not fix:
  \<open>lws_pre\<close> is the macro \<^verbatim>\<open>LWS_PRE\<close> of libwebsockets.h (the room the library wants in
  front of a frame), \<open>buf_ok\<close> whether \<^verbatim>\<open>malloc(LWS_PRE + len)\<close> succeeds, and \<open>written\<close>
  what \<^verbatim>\<open>lws_write\<close> returns. The fourth is the global \<^verbatim>\<open>g_connection\<close>. The
  difference \<^verbatim>\<open>MAX_MESSAGE_SIZE - LWS_PRE\<close> is exact for an \<^verbatim>\<open>LWS_PRE\<close> of at most 65536
  (it is 16 in libwebsockets).
\<close>

definition ws_send_message ::
  "nat \<Rightarrow> bool \<Rightarrow> int \<Rightarrow> ws_connection_t option \<Rightarrow> string option \<Rightarrow> int \<times> string option" where
  "ws_send_message lws_pre buf_ok written g_conn json_ptr =
     (case (g_conn, json_ptr) of
        (Some conn, Some json) \<Rightarrow>
          if \<not> wsi conn then (- 1, None)
          else if length json > MAX_MESSAGE_SIZE - lws_pre then (- 1, None)
          else if \<not> buf_ok then (- 1, None)
          else (if written \<ge> 0 then 0 else - 1, Some json)
      | _ \<Rightarrow> (- 1, None))"

text \<open>\<^verbatim>\<open>strstr(msg, needle) != NULL\<close>.\<close>

fun strstr :: "string \<Rightarrow> string \<Rightarrow> bool" where
  "strstr [] needle = (needle = [])"
| "strstr (c # cs) needle = (take (length needle) (c # cs) = needle \<or> strstr cs needle)"

text \<open>
  The loop \<^verbatim>\<open>while ((queued = queue_pop(&g_connection->queue)) != NULL)\<close> of the
  \<open>registered\<close> branch: every popped text is passed to \<^verbatim>\<open>ws_send_message\<close>. The loop
  ends when \<^verbatim>\<open>queue_pop\<close> returns \<^verbatim>\<open>NULL\<close>: on the empty queue, or after unlinking an
  entry without text.
\<close>

function drain_queue :: "aivory_queue_t \<Rightarrow> ws_effect list \<times> aivory_queue_t" where
  "drain_queue q =
     (case queue_pop q of
        (None, q') \<Rightarrow> ([], q')
      | (Some queued, q') \<Rightarrow>
          (let (effects, q'') = drain_queue q' in (Ws_send_message queued # effects, q'')))"
  by pat_completeness auto
termination
  by (relation "measure (\<lambda>q. length (entries q))")
     (auto simp: queue_pop_def split: list.splits)

declare drain_queue.simps [simp del]

text \<open>The reasons of \<^verbatim>\<open>enum lws_callback_reasons\<close> that \<^verbatim>\<open>ws_callback\<close> switches on.\<close>

datatype lws_callback_reasons =
  LWS_CALLBACK_CLIENT_ESTABLISHED
  | LWS_CALLBACK_CLIENT_RECEIVE
  | LWS_CALLBACK_CLIENT_WRITEABLE
  | LWS_CALLBACK_CLIENT_CONNECTION_ERROR
  | LWS_CALLBACK_CLIENT_CLOSED
  | LWS_CALLBACK_OTHER

text \<open>
  What the environment decides during one callback: the text that
  \<^verbatim>\<open>build_register_message\<close> returns (\<^verbatim>\<open>NULL\<close> when its \<^verbatim>\<open>malloc\<close> fails) and whether
  \<^verbatim>\<open>malloc(len + 1)\<close> for the copy of a received frame succeeds.
\<close>

record callback_env =
  reg_msg :: "string option"
  msg_ok :: bool

text \<open>
  The branch of \<^verbatim>\<open>LWS_CALLBACK_CLIENT_RECEIVE\<close> once the frame is copied into \<open>msg\<close>.
  The needles are the source's string literals.
\<close>

definition ws_receive :: "string \<Rightarrow> ws_connection_t \<Rightarrow> ws_connection_t \<times> ws_effect list" where
  \<open>ws_receive msg conn =
     (if strstr msg ''"registered"'' \<or> strstr msg ''"type":"registered"''
      then (let conn1 = conn\<lparr>authenticated := True, state := AIVORY_CONN_AUTHENTICATED\<rparr>;
                (effects, q) = drain_queue (queue conn1)
            in (conn1\<lparr>queue := q\<rparr>, effects))
      else if strstr msg ''"error"''
      then (if strstr msg ''auth_error'' \<or> strstr msg ''invalid_api_key''
            then (conn\<lparr>should_stop := True\<rparr>, [])
            else (conn, []))
      else (conn, []))\<close>

text \<open>
  \<^verbatim>\<open>ws_callback\<close> on the global \<^verbatim>\<open>g_connection\<close> (\<open>None\<close> when it is \<^verbatim>\<open>NULL\<close>). The
  argument \<open>data\<close> is the pair \<^verbatim>\<open>in\<close>, \<^verbatim>\<open>len\<close>: the bytes of the frame, \<open>None\<close> for a
  \<^verbatim>\<open>NULL\<close> pointer. The copy \<open>msg\<close> is read as a C string, so it ends at the first NUL
  byte of the frame.
\<close>

definition ws_callback ::
  "callback_env \<Rightarrow> lws_callback_reasons \<Rightarrow> string option \<Rightarrow> ws_connection_t option
     \<Rightarrow> ws_connection_t option \<times> ws_effect list" where
  "ws_callback env reason data g_conn =
     (case g_conn of
        None \<Rightarrow> (None, [])
      | Some conn \<Rightarrow>
         (case reason of
            LWS_CALLBACK_CLIENT_ESTABLISHED \<Rightarrow>
              (Some (conn\<lparr>state := AIVORY_CONN_CONNECTED, wsi := True\<rparr>),
               (case reg_msg env of None \<Rightarrow> [] | Some m \<Rightarrow> [Ws_send_message m]))
          | LWS_CALLBACK_CLIENT_RECEIVE \<Rightarrow>
              (case data of
                 None \<Rightarrow> (Some conn, [])
               | Some bytes \<Rightarrow>
                   if length bytes > 0 \<and> msg_ok env
                   then (let (conn', effects) =
                               ws_receive (takeWhile (\<lambda>c. c \<noteq> CHR 0x00) bytes) conn
                         in (Some conn', effects))
                   else (Some conn, []))
          | LWS_CALLBACK_CLIENT_WRITEABLE \<Rightarrow>
              (if authenticated conn
               then (case queue_pop (queue conn) of
                       (None, q) \<Rightarrow> (Some (conn\<lparr>queue := q\<rparr>), [])
                     | (Some json, q) \<Rightarrow>
                         (Some (conn\<lparr>queue := q\<rparr>),
                          Ws_send_message json
                            # (if queue_has_messages q then [Lws_callback_on_writable] else [])))
               else (Some conn, []))
          | LWS_CALLBACK_CLIENT_CONNECTION_ERROR \<Rightarrow>
              (Some (conn\<lparr>state := AIVORY_CONN_DISCONNECTED, wsi := False,
                          authenticated := False\<rparr>), [])
          | LWS_CALLBACK_CLIENT_CLOSED \<Rightarrow>
              (Some (conn\<lparr>state := AIVORY_CONN_DISCONNECTED, wsi := False,
                          authenticated := False\<rparr>), [])
          | LWS_CALLBACK_OTHER \<Rightarrow> (Some conn, [])))"

subsection \<open>The reconnect point of the worker loop\<close>

text \<open>
  The code at the label \<^verbatim>\<open>reconnect:\<close> of \<^verbatim>\<open>ws_thread_func\<close>, reached at the end of every
  pass of the worker loop: leave the loop when stopping or after more than 10 attempts,
  else sleep \<^verbatim>\<open>1 << (attempts > 6 ? 6 : attempts)\<close> seconds and loop.
\<close>

datatype worker_next = Worker_break | Worker_sleep int

definition reconnect :: "ws_connection_t \<Rightarrow> worker_next \<times> ws_connection_t" where
  "reconnect conn =
     (if should_stop conn then (Worker_break, conn)
      else (let conn1 = conn\<lparr>reconnect_attempts := reconnect_attempts conn + 1\<rparr>
            in if reconnect_attempts conn1 > 10 then (Worker_break, conn1)
               else (Worker_sleep
                       (2 ^ nat (if reconnect_attempts conn1 > 6 then 6
                                 else reconnect_attempts conn1)), conn1)))"

text \<open>
  What a worker sees between two reconnect points, as far as the connection object
  goes: the callbacks that libwebsockets delivers. A life of the worker is a list of
  such events and reconnect points; it ends at the first \<open>Worker_break\<close>.
\<close>

datatype worker_event =
  Callback callback_env lws_callback_reasons "string option" | Reconnect_point

fun worker_run :: "ws_connection_t \<Rightarrow> worker_event list \<Rightarrow> ws_connection_t" where
  "worker_run conn [] = conn"
| "worker_run conn (Callback env reason data # evs) =
     (case fst (ws_callback env reason data (Some conn)) of
        None \<Rightarrow> conn
      | Some conn' \<Rightarrow> worker_run conn' evs)"
| "worker_run conn (Reconnect_point # evs) =
     (case reconnect conn of
        (Worker_break, conn') \<Rightarrow> conn'
      | (Worker_sleep delay, conn') \<Rightarrow> worker_run conn' evs)"

text \<open>
  Data for the examples: the frame with which the service acknowledges a registration,
  and a connection that is connected, not yet authenticated, with an empty queue and ten
  reconnect attempts behind it.
\<close>

definition example_registered_frame :: string where
  \<open>example_registered_frame = ''{"type":"registered"}''\<close>

definition example_connection :: ws_connection_t where
  "example_connection =
     \<lparr>state = AIVORY_CONN_CONNECTED, queue = queue_init, reconnect_attempts = 10,
      should_stop = False, authenticated = False, lws_ctx = True, wsi = True\<rparr>"

subsection \<open>\<^verbatim>\<open>parse_url\<close>\<close>

text \<open>
  \<^verbatim>\<open>atoi\<close> is the C library's, not the repository's. Modelled from the C standard
  (\<^verbatim>\<open>atoi(s)\<close> is \<^verbatim>\<open>(int)strtol(s, NULL, 10)\<close>): white space is skipped, an optional
  sign is read, then decimal digits up to the first other character; with no digits the
  value is 0. When the value is not representable in a 32-bit \<^verbatim>\<open>int\<close> the behaviour is
  undefined, which is the result \<open>None\<close>.
\<close>

definition isspace :: "char \<Rightarrow> bool" where
  "isspace c \<longleftrightarrow> c \<in> {CHR 0x20, CHR 0x09, CHR 0x0A, CHR 0x0B, CHR 0x0C, CHR 0x0D}"

definition isdigit :: "char \<Rightarrow> bool" where
  "isdigit c \<longleftrightarrow> (48::nat) \<le> of_char c \<and> (of_char c :: nat) \<le> 57"

definition digits_value :: "string \<Rightarrow> int" where
  "digits_value ds = foldl (\<lambda>a c. a * 10 + (of_char c - 48)) 0 ds"

definition atoi :: "string \<Rightarrow> int option" where
  "atoi s =
     (let s1 = dropWhile isspace s;
          neg = (s1 \<noteq> [] \<and> hd s1 = CHR ''-'');
          s2 = (if s1 \<noteq> [] \<and> (hd s1 = CHR ''-'' \<or> hd s1 = CHR ''+'') then tl s1 else s1);
          v = digits_value (takeWhile isdigit s2);
          r = (if neg then - v else v)
      in if - 2147483648 \<le> r \<and> r \<le> 2147483647 then Some r else None)"

text \<open>
  The four outputs of \<^verbatim>\<open>parse_url\<close> (\<^verbatim>\<open>host\<close>, \<^verbatim>\<open>*port\<close>, \<^verbatim>\<open>path\<close>, \<^verbatim>\<open>*use_ssl\<close>) and
  its result: \<open>Parse_error\<close> is the return value -1, \<open>Parse_ok\<close> the return value 0 with
  the outputs, \<open>Parse_undefined\<close> the undefined behaviour of \<^verbatim>\<open>atoi\<close>.
\<close>

record url_parts =
  url_host :: string
  url_port :: int
  url_path :: string
  url_use_ssl :: bool

datatype parse_result = Parse_error | Parse_ok url_parts | Parse_undefined

text \<open>
  \<^verbatim>\<open>parse_url\<close>, in two definitions. The first is the body after the scheme has been
  recognised, with \<open>use_ssl\<close> and \<open>port\<close> as the scheme set them and \<open>p\<close> what follows
  the scheme: the host runs to the first colon or slash, and 256 characters or more are
  refused; after a colon the port is \<^verbatim>\<open>atoi\<close> of what follows, and the scan moves on to
  the next slash; \<^verbatim>\<open>strncpy(path, p, 512); path[511] = '\0';\<close> keeps the first 511
  characters of the path, and without a path the default \<open>/\<close> stays.
\<close>

definition parse_url_after_scheme :: "bool \<Rightarrow> int \<Rightarrow> string \<Rightarrow> parse_result" where
  "parse_url_after_scheme use_ssl port p =
     (let host = takeWhile (\<lambda>c. c \<noteq> CHR '':'' \<and> c \<noteq> CHR ''/'') p;
          p1 = dropWhile (\<lambda>c. c \<noteq> CHR '':'' \<and> c \<noteq> CHR ''/'') p
      in if length host \<ge> 256 then Parse_error
         else (case (if p1 \<noteq> [] \<and> hd p1 = CHR '':''
                     then (atoi (tl p1), dropWhile (\<lambda>c. c \<noteq> CHR ''/'') (tl p1))
                     else (Some port, p1)) of
                 (None, p2) \<Rightarrow> Parse_undefined
               | (Some port', p2) \<Rightarrow>
                   Parse_ok \<lparr>url_host = host, url_port = port',
                             url_path = (if p2 \<noteq> [] \<and> hd p2 = CHR ''/''
                                         then take 511 p2 else ''/''),
                             url_use_ssl = use_ssl\<rparr>))"

text \<open>
  The head of \<^verbatim>\<open>parse_url\<close>: \<^verbatim>\<open>strncmp(p, "wss://", 6) == 0\<close> holds when the first six
  characters are \<open>wss://\<close>, and likewise for the five of \<open>ws://\<close>; any other start
  returns -1.
\<close>

definition parse_url :: "string \<Rightarrow> parse_result" where
  "parse_url url =
     (if take 6 url = ''wss://'' then parse_url_after_scheme True 443 (drop 6 url)
      else if take 5 url = ''ws://'' then parse_url_after_scheme False 80 (drop 5 url)
      else Parse_error)"

text \<open>
  A URL put together from its parts, to state what the parser does: the scheme, a host,
  an optional colon and port text, and a path that is empty or starts with a slash.
\<close>

definition url_text :: "bool \<Rightarrow> string \<Rightarrow> string option \<Rightarrow> string \<Rightarrow> string" where
  "url_text ssl h po pth =
     (if ssl then ''wss://'' else ''ws://'') @ h
       @ (case po of None \<Rightarrow> [] | Some ds \<Rightarrow> CHR '':'' # ds) @ pth"

definition host_chars :: "string \<Rightarrow> bool" where
  "host_chars h \<longleftrightarrow> (\<forall>c \<in> set h. c \<noteq> CHR '':'' \<and> c \<noteq> CHR ''/'')"

definition port_digits :: "string option \<Rightarrow> bool" where
  "port_digits po \<longleftrightarrow>
     (case po of None \<Rightarrow> True
      | Some ds \<Rightarrow> (\<forall>c \<in> set ds. isdigit c) \<and> digits_value ds \<le> 2147483647)"

definition path_text :: "string \<Rightarrow> bool" where
  "path_text pth \<longleftrightarrow> pth = [] \<or> hd pth = CHR ''/''"

section \<open>The agent (src/agent.c) and its globals\<close>

text \<open>
  What a signal is set to do: the default action, ignore, the agent's
  \<^verbatim>\<open>signal_handler\<close>, or a handler of the host program.
\<close>

datatype sighandler = SIG_DFL | SIG_IGN | Agent_signal_handler | User_handler nat

text \<open>The signal numbers of \<^verbatim>\<open><signal.h>\<close> on Linux (x86 and ARM).\<close>

definition SIGILL :: int where "SIGILL = 4"
definition SIGABRT :: int where "SIGABRT = 6"
definition SIGBUS :: int where "SIGBUS = 7"
definition SIGFPE :: int where "SIGFPE = 8"
definition SIGSEGV :: int where "SIGSEGV = 11"

text \<open>
  The global state of the three source files: \<^verbatim>\<open>g_agent\<close> (agent.c), \<^verbatim>\<open>g_connection\<close>
  (websocket.c, \<open>None\<close> for \<^verbatim>\<open>NULL\<close>), and of signal_handler.c the pointer \<^verbatim>\<open>g_agent_ref\<close>
  (\<^verbatim>\<open>NULL\<close> or the address of \<^verbatim>\<open>g_agent\<close>), the flag \<^verbatim>\<open>g_handling_signal\<close> and the
  \<^verbatim>\<open>sa_handler\<close> of the five saved \<^verbatim>\<open>struct sigaction\<close>. \<open>disposition\<close> is the process's
  table of installed handlers, which \<^verbatim>\<open>sigaction\<close> and \<^verbatim>\<open>signal\<close> write.
\<close>

record globals =
  g_agent :: aivory_agent_t
  g_connection :: "ws_connection_t option"
  g_agent_ref :: bool
  g_handling_signal :: int
  g_original_sigsegv :: sighandler
  g_original_sigabrt :: sighandler
  g_original_sigfpe :: sighandler
  g_original_sigbus :: sighandler
  g_original_sigill :: sighandler
  disposition :: "int \<Rightarrow> sighandler"

text \<open>The state at program start: every static object is zero, every signal at its default.\<close>

definition initial_globals :: globals where
  "initial_globals =
     \<lparr>g_agent = zero_agent, g_connection = None, g_agent_ref = False, g_handling_signal = 0,
      g_original_sigsegv = SIG_DFL, g_original_sigabrt = SIG_DFL, g_original_sigfpe = SIG_DFL,
      g_original_sigbus = SIG_DFL, g_original_sigill = SIG_DFL,
      disposition = (\<lambda>sig. SIG_DFL)\<rparr>"

text \<open>
  \<^verbatim>\<open>aivory_install_signal_handlers\<close> (signal_handler.c): five calls of \<^verbatim>\<open>sigaction\<close>, each
  saving the previous handler of its signal and installing the agent's.
\<close>

definition aivory_install_signal_handlers :: "globals \<Rightarrow> globals" where
  "aivory_install_signal_handlers w =
     (let w0 = w\<lparr>g_agent_ref := True\<rparr>;
          w1 = w0\<lparr>g_original_sigsegv := disposition w0 SIGSEGV,
                  disposition := (disposition w0)(SIGSEGV := Agent_signal_handler)\<rparr>;
          w2 = w1\<lparr>g_original_sigabrt := disposition w1 SIGABRT,
                  disposition := (disposition w1)(SIGABRT := Agent_signal_handler)\<rparr>;
          w3 = w2\<lparr>g_original_sigfpe := disposition w2 SIGFPE,
                  disposition := (disposition w2)(SIGFPE := Agent_signal_handler)\<rparr>;
          w4 = w3\<lparr>g_original_sigbus := disposition w3 SIGBUS,
                  disposition := (disposition w3)(SIGBUS := Agent_signal_handler)\<rparr>
      in w4\<lparr>g_original_sigill := disposition w4 SIGILL,
             disposition := (disposition w4)(SIGILL := Agent_signal_handler)\<rparr>)"

text \<open>
  What the environment decides during \<^verbatim>\<open>aivory_init\<close>: the results of
  \<^verbatim>\<open>aivory_generate_agent_id\<close> and \<^verbatim>\<open>aivory_get_hostname\<close> (\<^verbatim>\<open>NULL\<close> when their \<^verbatim>\<open>malloc\<close>
  fails), and whether \<^verbatim>\<open>calloc\<close> of the connection and \<^verbatim>\<open>pthread_create\<close> succeed.
\<close>

record init_env =
  new_agent_id :: "string option"
  new_hostname :: "string option"
  calloc_ok :: bool
  pthread_create_ok :: bool

text \<open>\<^verbatim>\<open>aivory_ws_connect\<close> (websocket.c): the return value and the globals after.\<close>

definition aivory_ws_connect :: "init_env \<Rightarrow> globals \<Rightarrow> int \<times> globals" where
  "aivory_ws_connect env w =
     (case g_connection w of
        Some conn \<Rightarrow> (0, w)
      | None \<Rightarrow>
          if \<not> calloc_ok env then (- 1, w)
          else if \<not> pthread_create_ok env then (- 1, w\<lparr>g_connection := None\<rparr>)
          else (0, w\<lparr>g_connection :=
                         Some \<lparr>state = AIVORY_CONN_DISCONNECTED, queue = queue_init,
                               reconnect_attempts = 0, should_stop = False,
                               authenticated = False, lws_ctx = False, wsi = False\<rparr>,
                      g_agent := (g_agent w)\<lparr>connection := True\<rparr>\<rparr>))"

text \<open>
  \<^verbatim>\<open>aivory_init\<close>: the return value and the globals after. The argument is \<open>None\<close> for a
  \<^verbatim>\<open>NULL\<close> configuration. The result of \<^verbatim>\<open>aivory_ws_connect\<close> is only logged ("Continue
  anyway, will retry").
\<close>

definition aivory_init :: "init_env \<Rightarrow> aivory_config_t option \<Rightarrow> globals \<Rightarrow> int \<times> globals" where
  "aivory_init env config_ptr w =
     (if initialized (g_agent w) then (- 1, w)
      else (case config_ptr of
              None \<Rightarrow> (- 1, w)
            | Some cfg \<Rightarrow>
               (case api_key cfg of
                  None \<Rightarrow> (- 1, w)
                | Some key \<Rightarrow>
                    if key = [] then (- 1, w)
                    else (let w1 = w\<lparr>g_agent := (g_agent w)\<lparr>config := cfg\<rparr>\<rparr>;
                              w2 = w1\<lparr>g_agent := (g_agent w1)\<lparr>agent_id := new_agent_id env\<rparr>\<rparr>;
                              w3 = w2\<lparr>g_agent := (g_agent w2)\<lparr>hostname := new_hostname env\<rparr>\<rparr>;
                              w4 = (if capture_signals cfg
                                    then aivory_install_signal_handlers w3 else w3);
                              w5 = snd (aivory_ws_connect env w4)
                          in (0, w5\<lparr>g_agent := (g_agent w5)\<lparr>initialized := True\<rparr>\<rparr>)))))"



text \<open>
  \<^verbatim>\<open>aivory_should_sample\<close>. The second argument is the value that
  \<^verbatim>\<open>(double)rand() / RAND_MAX\<close> has if it is evaluated; the second component of the result
  tells whether it was, that is, whether \<^verbatim>\<open>rand()\<close> was called.
\<close>

definition aivory_should_sample :: "aivory_config_t \<Rightarrow> double \<Rightarrow> bool \<times> bool" where
  "aivory_should_sample cfg draw =
     (if double_ge (sampling_rate cfg) (Double_finite 1) then (True, False)
      else if double_le (sampling_rate cfg) (Double_finite 0) then (False, False)
      else (double_lt draw (sampling_rate cfg), True))"

text \<open>
  What the environment decides during one capture: the random draw, the result of
  \<^verbatim>\<open>aivory_capture_backtrace\<close> (the encoded stack, \<^verbatim>\<open>NULL\<close> when its \<^verbatim>\<open>malloc\<close> fails), the
  allocations of the fingerprint, of the record buffer, of a queue entry and of its text
  (\<^verbatim>\<open>strdup\<close>), the text that \<^verbatim>\<open>strftime\<close> writes, and \<open>time_now\<close>, the value of
  \<^verbatim>\<open>(long)time(NULL)\<close>. For the send: the macro \<^verbatim>\<open>LWS_PRE\<close>, the allocation of the frame
  buffer and the result of \<^verbatim>\<open>lws_write\<close>, as \<open>ws_send_message\<close> takes them.
\<close>

record capture_env =
  rand_draw :: double
  backtrace_result :: "string option"
  fingerprint_alloc :: bool
  json_alloc :: bool
  entry_alloc :: bool
  strdup_alloc :: bool
  timestamp_text :: string
  time_now :: int
  lws_pre_size :: nat
  frame_alloc :: bool
  lws_written :: int

text \<open>
  \<^verbatim>\<open>aivory_ws_send_exception\<close> (websocket.c): the globals after and what is asked of
  libwebsockets. While authenticated the text goes to \<^verbatim>\<open>ws_send_message\<close>, whose result
  is ignored; otherwise it goes to \<^verbatim>\<open>queue_push\<close>.
\<close>

definition aivory_ws_send_exception ::
  "capture_env \<Rightarrow> string option \<Rightarrow> globals \<Rightarrow> globals \<times> ws_effect list" where
  "aivory_ws_send_exception env json_ptr w =
     (case (g_connection w, json_ptr) of
        (Some conn, Some json) \<Rightarrow>
          if state conn = AIVORY_CONN_AUTHENTICATED \<and> authenticated conn
          then (w,
                (case snd (ws_send_message (lws_pre_size env) (frame_alloc env)
                             (lws_written env) (g_connection w) (Some json)) of
                   None \<Rightarrow> []
                 | Some text \<Rightarrow> [Lws_write text])
                @ (if wsi conn then [Lws_callback_on_writable] else []))
          else (w\<lparr>g_connection :=
                     Some (conn\<lparr>queue := queue_push (entry_alloc env) (strdup_alloc env)
                                            (queue conn) json\<rparr>)\<rparr>,
                [])
      | _ \<Rightarrow> (w, []))"

text \<open>
  A product of two \<^verbatim>\<open>long\<close> values: \<open>None\<close> when it does not fit the platform's \<^verbatim>\<open>long\<close>,
  where the behaviour of the C program is undefined.
\<close>

definition long_product :: "platform \<Rightarrow> int \<Rightarrow> int \<Rightarrow> int option" where
  "long_product pf a b =
     (if - (2 ^ (long_bits pf - 1)) \<le> a * b \<and> a * b < 2 ^ (long_bits pf - 1)
      then Some (a * b) else None)"





text \<open>
  Data for the examples: an environment in which every allocation succeeds, a
  configuration with the defaults of \<^verbatim>\<open>aivory_config_default\<close> and an API key, the same
  with a backend URL of scheme \<open>http\<close>, and the same with a maximum string length of 8.
\<close>

definition example_init_env :: init_env where
  "example_init_env =
     \<lparr>new_agent_id = Some ''agent-6720c1a9-0badcafe'', new_hostname = Some ''host1'',
      calloc_ok = True, pthread_create_ok = True\<rparr>"

definition example_config :: aivory_config_t where
  "example_config =
     \<lparr>api_key = Some ''test-key-123'',
      backend_url = Some ''wss://api.aivory.net/monitor/agent'',
      environment = Some ''production'', sampling_rate = Double_finite 1,
      max_capture_depth = 10, max_string_length = 1000, max_collection_size = 100,
      debug = False, capture_signals = True\<rparr>"

definition http_url_config :: aivory_config_t where
  "http_url_config = example_config\<lparr>backend_url := Some ''http://api.aivory.net/monitor''\<rparr>"

definition short_strings_config :: aivory_config_t where
  "short_strings_config = example_config\<lparr>max_string_length := 8\<rparr>"

definition example_capture_env :: capture_env where
  "example_capture_env =
     \<lparr>rand_draw = Double_finite 0, backtrace_result = Some ''[]'', fingerprint_alloc = True,
      json_alloc = True, entry_alloc = True, strdup_alloc = True,
      timestamp_text = ''2026-10-30T00:00:00Z'', time_now = 1793318400,
      lws_pre_size = 16, frame_alloc = True, lws_written = 0\<rparr>"

text \<open>
  The globals after \<^verbatim>\<open>aivory_init\<close> with the maximum string length 8, and the two parts
  of the record that a capture then builds around its message.
\<close>

definition example_globals :: globals where
  "example_globals = snd (aivory_init example_init_env (Some short_strings_config) initial_globals)"






section \<open>The signal handler (src/capture/signal_handler.c)\<close>

definition signal_name :: "int \<Rightarrow> string" where
  "signal_name sig =
     (if sig = SIGSEGV then ''SIGSEGV''
      else if sig = SIGABRT then ''SIGABRT''
      else if sig = SIGFPE then ''SIGFPE''
      else if sig = SIGBUS then ''SIGBUS''
      else if sig = SIGILL then ''SIGILL''
      else ''UNKNOWN'')"

definition signal_description :: "int \<Rightarrow> string" where
  "signal_description sig =
     (if sig = SIGSEGV then ''Segmentation fault''
      else if sig = SIGABRT then ''Abort signal''
      else if sig = SIGFPE then ''Floating point exception''
      else if sig = SIGBUS then ''Bus error''
      else if sig = SIGILL then ''Illegal instruction''
      else ''Unknown signal'')"

text \<open>
  The text that \<^verbatim>\<open>snprintf\<close> formats into \<^verbatim>\<open>json[8192]\<close> in the handler, in full.
  \<open>addr\<close> is the text that \<^verbatim>\<open>%p\<close> produces for \<^verbatim>\<open>info ? info->si_addr : NULL\<close>, and \<open>ms\<close>
  is the value of \<^verbatim>\<open>(long)now * 1000\<close>.
\<close>

definition signal_json ::
  "aivory_agent_t \<Rightarrow> int \<Rightarrow> string \<Rightarrow> string option \<Rightarrow> string option \<Rightarrow> string \<Rightarrow> int
     \<Rightarrow> string" where
  \<open>signal_json agent sig addr fingerprint backtrace timestamp ms =
     ''{"type":"exception","payload":{"id":"'' @ printf_s (agent_id agent)
     @ ''-signal","exception_type":"'' @ signal_name sig
     @ ''","message":"'' @ signal_description sig @ '' (address: '' @ addr
     @ '')","fingerprint":"'' @ (case fingerprint of None \<Rightarrow> [] | Some f \<Rightarrow> f)
     @ ''","stack_trace":'' @ (case backtrace of None \<Rightarrow> ''[]'' | Some b \<Rightarrow> b)
     @ '',"local_variables":{},"context":{"signal":'' @ printf_d sig
     @ '',"fatal":true},"captured_at":"'' @ timestamp
     @ ''","agent_id":"'' @ printf_s (agent_id agent)
     @ ''","environment":"'' @ printf_s (environment (config agent))
     @ ''"},"timestamp":'' @ printf_d ms @ ''}''\<close>

text \<open>
  What the handler does, in the order in which it does it: each call that leaves the
  handler's own variables is one event. \<open>Ev_exit\<close> is \<^verbatim>\<open>_exit\<close>, which does not return, so
  it can only be the last event; \<open>Ev_set_handling_flag\<close> is the store
  \<^verbatim>\<open>g_handling_signal = 1\<close>. \<open>Ev_undefined_behaviour\<close> marks the point at which the
  behaviour of the C program becomes undefined (the overflow of \<^verbatim>\<open>(long)now * 1000\<close>);
  nothing is known of what follows it, so it too can only be the last event.
\<close>

datatype sig_event =
  Ev_exit int
  | Ev_set_handling_flag
  | Ev_capture_backtrace int
  | Ev_calculate_fingerprint string
  | Ev_send_exception string
  | Ev_usleep int
  | Ev_sigaction int sighandler
  | Ev_signal_dfl int
  | Ev_raise int
  | Ev_undefined_behaviour

text \<open>
  The work of the handler while the agent is referenced and initialised: capture, assemble
  and send. It yields its events, the globals after, and what the send asked of
  libwebsockets; \<open>None\<close> when the product \<^verbatim>\<open>(long)now * 1000\<close> overflows.
\<close>

definition signal_report ::
  "platform \<Rightarrow> capture_env \<Rightarrow> string \<Rightarrow> int \<Rightarrow> globals
     \<Rightarrow> (sig_event list \<times> globals \<times> ws_effect list) option" where
  "signal_report pf env addr sig w =
     (let backtrace = backtrace_result env;
          fingerprint = aivory_calculate_fingerprint pf (fingerprint_alloc env)
                          (Some (signal_name sig)) backtrace
      in case long_product pf (time_now env) 1000 of
           None \<Rightarrow> None
         | Some ms \<Rightarrow>
            (let json = signal_json (g_agent w) sig addr fingerprint backtrace
                          (timestamp_text env) ms
             in if 0 < length json \<and> length json < 8192
                then (case aivory_ws_send_exception env (Some json) w of
                        (w', effects) \<Rightarrow>
                          Some ([Ev_capture_backtrace 2,
                                 Ev_calculate_fingerprint (signal_name sig),
                                 Ev_send_exception json, Ev_usleep 100000], w', effects))
                else Some ([Ev_capture_backtrace 2,
                            Ev_calculate_fingerprint (signal_name sig)], w, [])))"

text \<open>
  The saved handler that the \<^verbatim>\<open>switch\<close> at the end of the handler selects; \<open>None\<close> is
  the \<^verbatim>\<open>NULL\<close> that \<^verbatim>\<open>original\<close> keeps for any other signal.
\<close>

definition original_handler :: "int \<Rightarrow> globals \<Rightarrow> sighandler option" where
  "original_handler sig w =
     (if sig = SIGSEGV then Some (g_original_sigsegv w)
      else if sig = SIGABRT then Some (g_original_sigabrt w)
      else if sig = SIGFPE then Some (g_original_sigfpe w)
      else if sig = SIGBUS then Some (g_original_sigbus w)
      else if sig = SIGILL then Some (g_original_sigill w)
      else None)"

text \<open>
  \<^verbatim>\<open>signal_handler\<close>: its events in order, the globals after, and what was asked of
  libwebsockets. On entry with the flag set the only event is \<^verbatim>\<open>_exit(128 + sig)\<close>. When
  the timestamp overflows, the events end with \<open>Ev_undefined_behaviour\<close>, after the
  capture of the stack and the fingerprint.
\<close>

definition signal_handler ::
  "platform \<Rightarrow> capture_env \<Rightarrow> string \<Rightarrow> int \<Rightarrow> globals
     \<Rightarrow> sig_event list \<times> globals \<times> ws_effect list" where
  "signal_handler pf env addr sig w =
     (if g_handling_signal w \<noteq> 0 then ([Ev_exit (128 + sig)], w, [])
      else (let w1 = w\<lparr>g_handling_signal := 1\<rparr>
            in case (if g_agent_ref w1 \<and> initialized (g_agent w1)
                     then signal_report pf env addr sig w1
                     else Some ([], w1, [])) of
                 None \<Rightarrow>
                   ([Ev_set_handling_flag, Ev_capture_backtrace 2,
                     Ev_calculate_fingerprint (signal_name sig), Ev_undefined_behaviour],
                    w1, [])
               | Some (events, w2, effects) \<Rightarrow>
                   (let reset_default =
                          (Ev_set_handling_flag # events @ [Ev_signal_dfl sig, Ev_raise sig],
                           w2\<lparr>disposition := (disposition w2)(sig := SIG_DFL)\<rparr>, effects)
                    in case original_handler sig w2 of
                         None \<Rightarrow> reset_default
                       | Some h \<Rightarrow>
                           if h \<noteq> SIG_DFL \<and> h \<noteq> SIG_IGN
                           then (Ev_set_handling_flag # events
                                   @ [Ev_sigaction sig h, Ev_raise sig],
                                 w2\<lparr>disposition := (disposition w2)(sig := h)\<rparr>, effects)
                           else reset_default)))"
section \<open>Properties of the message queue\<close>

lemma queue_run_snoc: "queue_run (ops @ [x]) = queue_step (queue_run ops) x"
  by (simp add: queue_run_def)

lemma stored_snoc:
  "stored (ops @ [x]) =
     (case x of
        Push json entry_ok strdup_ok \<Rightarrow>
          (if entry_ok then stored ops @ [if strdup_ok then Some json else None]
           else stored ops)
      | Pop \<Rightarrow> stored ops)"
  by (induction ops rule: stored.induct) (auto split: queue_op.splits)

lemma records_snoc:
  "records (ops @ [x]) =
     (case x of Push json entry_ok strdup_ok \<Rightarrow> records ops @ [json] | Pop \<Rightarrow> records ops)"
  by (induction ops rule: records.induct) (auto split: queue_op.splits)

lemma pushes_snoc:
  "pushes (ops @ [x]) =
     (case x of Push json entry_ok strdup_ok \<Rightarrow> Suc (pushes ops) | Pop \<Rightarrow> pushes ops)"
  by (induction ops rule: pushes.induct) (auto split: queue_op.splits)

lemma pops_snoc:
  "pops (ops @ [x]) = (case x of Push json entry_ok strdup_ok \<Rightarrow> pops ops | Pop \<Rightarrow> Suc (pops ops))"
  by (induction ops rule: pops.induct) (auto split: queue_op.splits)

lemma failed_pushes_snoc:
  "failed_pushes (ops @ [x]) =
     (case x of
        Push json entry_ok strdup_ok \<Rightarrow>
          (if entry_ok then failed_pushes ops else Suc (failed_pushes ops))
      | Pop \<Rightarrow> failed_pushes ops)"
  by (induction ops rule: failed_pushes.induct) (auto split: queue_op.splits)

lemma queue_pop_fields:
  "entries (snd (queue_pop q)) = tl (entries q)"
  "count (snd (queue_pop q)) = (if entries q = [] then count q else count q - 1)"
  "max_size (snd (queue_pop q)) = max_size q"
  by (simp_all add: queue_pop_def split: list.splits)

lemma queue_push_fields:
  "entries (queue_push ok sok q json) =
     (if count q \<ge> max_size q \<and> entries q \<noteq> [] then tl (entries q) else entries q)
       @ (if ok then [if sok then Some json else None] else [])"
  "count (queue_push ok sok q json) =
     (if count q \<ge> max_size q \<and> entries q \<noteq> [] then count q - 1 else count q)
       + (if ok then 1 else 0)"
  "max_size (queue_push ok sok q json) = max_size q"
  by (simp_all add: queue_push_def Let_def)

lemma suffix_of_tl:
  assumes s: "suffix_of xs h"
  shows "suffix_of (tl xs) h"
proof (cases xs)
  case Nil
  with s show ?thesis by (simp add: suffix_of_def)
next
  case (Cons x rest)
  from s Cons have len: "Suc (length rest) \<le> length h"
    and eq: "x # rest = drop (length h - Suc (length rest)) h"
    by (simp_all add: suffix_of_def)
  have "rest = drop 1 (x # rest)" by simp
  also have "\<dots> = drop 1 (drop (length h - Suc (length rest)) h)" using eq by simp
  also have "\<dots> = drop (length h - length rest) h" using len by (simp add: Suc_diff_Suc)
  finally show ?thesis using Cons len by (simp add: suffix_of_def)
qed

lemma suffix_of_snoc: "suffix_of xs h \<Longrightarrow> suffix_of (xs @ [y]) (h @ [y])"
  by (simp add: suffix_of_def)

lemma queue_inv_init: "queue_inv queue_init []"
  by (simp add: queue_inv_def queue_init_def AIVORY_MESSAGE_QUEUE_SIZE_def suffix_of_def)

lemma queue_inv_pop:
  assumes "queue_inv q ops"
  shows "queue_inv (snd (queue_pop q)) (ops @ [Pop])"
  using assms suffix_of_tl [of "entries q" "stored ops"]
  by (cases "entries q")
     (auto simp: queue_inv_def queue_pop_fields stored_snoc pops_snoc failed_pushes_snoc)

lemma queue_inv_push:
  assumes "queue_inv q ops"
  shows "queue_inv (queue_push ok sok q json) (ops @ [Push json ok sok])"
proof -
  from assms have c: "count q = int (length (entries q))" and m: "max_size q = 100"
    and l: "length (entries q) \<le> 100" and s: "suffix_of (entries q) (stored ops)"
    and b: "min (length (stored ops)) 100 \<le> length (entries q) + pops ops + failed_pushes ops"
    by (simp_all add: queue_inv_def)
  have sl: "length (entries q) \<le> length (stored ops)" using s by (simp add: suffix_of_def)
  show ?thesis
  proof (cases "length (entries q) = 100")
    case True
    then have ne: "entries q \<noteq> []" by auto
    have st: "suffix_of (tl (entries q)) (stored ops)" using s by (rule suffix_of_tl)
    show ?thesis
      using True ne c m st suffix_of_snoc [OF st, of "if sok then Some json else None"] b sl
      by (cases ok)
         (auto simp: queue_inv_def queue_push_fields stored_snoc pops_snoc failed_pushes_snoc)
  next
    case False
    with l have lt: "length (entries q) < 100" by simp
    show ?thesis
      using lt c m s suffix_of_snoc [OF s, of "if sok then Some json else None"] b sl
      by (cases ok)
         (auto simp: queue_inv_def queue_push_fields stored_snoc pops_snoc failed_pushes_snoc)
  qed
qed

lemma queue_run_inv: "queue_inv (queue_run ops) ops"
proof (induction ops rule: rev_induct)
  case Nil
  show ?case using queue_inv_init by (simp add: queue_run_def)
next
  case (snoc x ops)
  show ?case
  proof (cases x)
    case (Push json ok sok)
    with snoc queue_inv_push show ?thesis by (simp add: queue_run_snoc)
  next
    case Pop
    with snoc queue_inv_pop show ?thesis by (simp add: queue_run_snoc)
  qed
qed



lemma undisturbed_inv_push:
  assumes "undisturbed_inv q ev d"
  shows "undisturbed_inv (queue_push True True q json)
           (ev \<or> (count q \<ge> max_size q \<and> entries q \<noteq> [])) (Suc d)"
proof (cases "100 \<le> d")
  case True
  with assms have "length (entries q) = 100" by (simp add: undisturbed_inv_def)
  with assms True show ?thesis
    by (cases "entries q") (auto simp: undisturbed_inv_def queue_push_fields)
next
  case False
  with assms have "length (entries q) = d" "\<not> ev" by (auto simp: undisturbed_inv_def)
  with assms False show ?thesis
    by (auto simp: undisturbed_inv_def queue_push_fields)
qed

lemma undisturbed_inv_pop:
  assumes "undisturbed_inv q ev d" "entries q \<noteq> []" "\<not> ev"
  shows "undisturbed_inv (snd (queue_pop q)) ev (d - 1) \<and> 0 < d"
  using assms by (cases "entries q") (auto simp: undisturbed_inv_def queue_pop_fields)

lemma undisturbed_from_length:
  "undisturbed_inv q ev d \<Longrightarrow> undisturbed_from q ev ops \<Longrightarrow>
     pops ops \<le> d + pushes ops
     \<and> length (entries (foldl queue_step q ops)) = min (d + pushes ops - pops ops) 100"
proof (induction ops arbitrary: q ev d)
  case Nil
  then show ?case by (simp add: undisturbed_inv_def)
next
  case (Cons x ops)
  show ?case
  proof (cases x)
    case (Push json entry_ok strdup_ok)
    with Cons.prems(2) have ok: "entry_ok" "strdup_ok"
      and rest: "undisturbed_from (queue_push True True q json)
                   (ev \<or> (count q \<ge> max_size q \<and> entries q \<noteq> [])) ops"
      by auto
    from Cons.IH [OF undisturbed_inv_push [OF Cons.prems(1)] rest]
    show ?thesis using Push ok by simp
  next
    case Pop
    with Cons.prems(2) have ne: "entries q \<noteq> []" and nev: "\<not> ev"
      and rest: "undisturbed_from (snd (queue_pop q)) ev ops"
      by auto
    from undisturbed_inv_pop [OF Cons.prems(1) ne nev]
    have i: "undisturbed_inv (snd (queue_pop q)) ev (d - 1)" and d: "0 < d" by simp_all
    from Cons.IH [OF i rest] d show ?thesis using Pop by auto
  qed
qed

lemma undisturbed_from_stored:
  "undisturbed_from q ev ops \<Longrightarrow> stored ops = map Some (records ops)"
  by (induction q ev ops rule: undisturbed_from.induct) auto

lemma undisturbed_length:
  assumes "undisturbed ops"
  shows "pops ops \<le> pushes ops"
    and "length (entries (queue_run ops)) = min (pushes ops - pops ops) 100"
proof -
  have i: "undisturbed_inv queue_init False 0"
    by (simp add: undisturbed_inv_def queue_init_def AIVORY_MESSAGE_QUEUE_SIZE_def)
  from undisturbed_from_length [OF i] assms
  show "pops ops \<le> pushes ops"
    and "length (entries (queue_run ops)) = min (pushes ops - pops ops) 100"
    by (simp_all add: undisturbed_def queue_run_def)
qed

lemma most_recent_map: "most_recent k (map f xs) = map f (most_recent k xs)"
  by (simp add: most_recent_def drop_map)

lemma queue_run_entries:
  "entries (queue_run ops) = most_recent (length (entries (queue_run ops))) (stored ops)"
  using queue_run_inv [of ops] by (simp add: queue_inv_def suffix_of_def most_recent_def)

lemma undisturbed_entries:
  assumes "undisturbed ops"
  shows "entries (queue_run ops)
           = map Some (most_recent (min (pushes ops - pops ops) 100) (records ops))"
proof -
  have "stored ops = map Some (records ops)"
    using assms undisturbed_from_stored by (simp add: undisturbed_def)
  then show ?thesis
    using queue_run_entries [of ops] undisturbed_length(2) [OF assms]
    by (simp add: most_recent_map)
qed

lemma queue_run_push:
  "entries (queue_run (ops @ [Push json entry_ok strdup_ok])) =
     (if length (entries (queue_run ops)) = 100 then tl (entries (queue_run ops))
      else entries (queue_run ops))
     @ (if entry_ok then [if strdup_ok then Some json else None] else [])"
  using queue_run_inv [of ops]
  by (auto simp: queue_inv_def queue_run_snoc queue_push_fields)

lemma queue_run_pop:
  "fst (queue_pop (queue_run ops)) = (case entries (queue_run ops) of [] \<Rightarrow> None | e # rest \<Rightarrow> e)"
  "entries (queue_run (ops @ [Pop])) = tl (entries (queue_run ops))"
  by (simp_all add: queue_run_snoc queue_pop_fields queue_pop_def split: list.splits)

lemma counts_replicate_push:
  "pushes (replicate n (Push json a b)) = n"
  "pops (replicate n (Push json a b)) = 0"
  "failed_pushes (replicate n (Push json True b)) = 0"
  "length (stored (replicate n (Push json True b))) = n"
  by (induction n) simp_all

lemma queue_run_101_pop:
  "length (entries (queue_run (replicate 101 (Push ''r'' True True) @ [Pop]))) = 99"
proof -
  let ?ops = "replicate 101 (Push ''r'' True True)"
  have "queue_inv (queue_run ?ops) ?ops" by (rule queue_run_inv)
  then have "length (entries (queue_run ?ops)) = 100"
    by (simp add: queue_inv_def counts_replicate_push)
  then show ?thesis by (simp add: queue_run_pop(2))
qed


text \<open>
  Claim C1, as the code has it. After any interleaving \<open>ops\<close> of pushes and pops, run
  from the initialised queue: \<open>count\<close> is the number of live entries and is at most
  100; the live entries are exactly the most recently linked ones, as many as the queue
  holds, in the order of their pushes (FIFO); their number \<open>k\<close> satisfies
  \<open>min S 100 - M - F \<le> k \<le> min S 100\<close>, where \<open>S\<close> counts the pushes whose entry was
  allocated, \<open>M\<close> the pops and \<open>F\<close> the pushes whose entry allocation failed. A further
  push first drops the head if the queue holds 100 entries and then, if its entry is
  allocated, appends the new entry at the tail (with the text of the record, or with no
  text when the copy of the text failed): it is never rejected for lack of room. A
  further pop returns the text of the head and removes the head; on an empty queue it
  returns \<^verbatim>\<open>NULL\<close> and removes nothing. And in every interleaving of \<open>N\<close> pushes and \<open>M\<close>
  pops in which every allocation succeeds, no pop finds the queue empty and no pop comes
  after an eviction, \<open>M \<le> N\<close> and the live entries are exactly the \<open>min (N - M) 100\<close>
  most recently pushed records, in the order of their pushes.
\<close>

theorem queue_bounded_fifo:
  "count (queue_run ops) = int (length (entries (queue_run ops)))
   \<and> length (entries (queue_run ops)) \<le> 100
   \<and> entries (queue_run ops) = most_recent (length (entries (queue_run ops))) (stored ops)
   \<and> length (entries (queue_run ops)) \<le> min (length (stored ops)) 100
   \<and> min (length (stored ops)) 100
        \<le> length (entries (queue_run ops)) + pops ops + failed_pushes ops
   \<and> entries (queue_run (ops @ [Push json entry_ok strdup_ok])) =
        (if length (entries (queue_run ops)) = 100 then tl (entries (queue_run ops))
         else entries (queue_run ops))
        @ (if entry_ok then [if strdup_ok then Some json else None] else [])
   \<and> fst (queue_pop (queue_run ops)) =
        (case entries (queue_run ops) of [] \<Rightarrow> None | e # rest \<Rightarrow> e)
   \<and> entries (queue_run (ops @ [Pop])) = tl (entries (queue_run ops))
   \<and> (undisturbed ops
        \<longrightarrow> pops ops \<le> pushes ops
            \<and> entries (queue_run ops)
                = map Some (most_recent (min (pushes ops - pops ops) 100) (records ops)))"
proof -
  have inv: "queue_inv (queue_run ops) ops" by (rule queue_run_inv)
  then have c: "count (queue_run ops) = int (length (entries (queue_run ops)))"
    and l: "length (entries (queue_run ops)) \<le> 100"
    and s: "suffix_of (entries (queue_run ops)) (stored ops)"
    and b: "min (length (stored ops)) 100
              \<le> length (entries (queue_run ops)) + pops ops + failed_pushes ops"
    by (simp_all add: queue_inv_def)
  from s have sl: "length (entries (queue_run ops)) \<le> length (stored ops)"
    by (simp add: suffix_of_def)
  have u: "undisturbed ops
        \<longrightarrow> pops ops \<le> pushes ops
            \<and> entries (queue_run ops)
                = map Some (most_recent (min (pushes ops - pops ops) 100) (records ops))"
    using undisturbed_length(1) undisturbed_entries by blast
  from c l sl b u queue_run_entries [of ops] queue_run_push [of ops json entry_ok strdup_ok]
    queue_run_pop [of ops]
  show ?thesis by simp
qed

text \<open>
  The theorem at the interleaving push r1, push r2, pop, which is undisturbed: one live
  entry, the most recent of the two records; a further push lands at the tail and a
  further pop empties the queue.
\<close>

theorem queue_bounded_fifo_witness:
  "undisturbed [Push ''r1'' True True, Push ''r2'' True True, Pop]
   \<and> entries (queue_run [Push ''r1'' True True, Push ''r2'' True True, Pop]) = [Some ''r2'']
   \<and> min (pushes [Push ''r1'' True True, Push ''r2'' True True, Pop]
           - pops [Push ''r1'' True True, Push ''r2'' True True, Pop]) 100 = 1
   \<and> most_recent 1 (records [Push ''r1'' True True, Push ''r2'' True True, Pop]) = [''r2'']
   \<and> entries (queue_run ([Push ''r1'' True True, Push ''r2'' True True, Pop]
                          @ [Push ''r3'' True True]))
       = [Some ''r2'', Some ''r3'']
   \<and> entries (queue_run ([Push ''r1'' True True, Push ''r2'' True True, Pop] @ [Pop])) = []"
proof -
  have u: "undisturbed [Push ''r1'' True True, Push ''r2'' True True, Pop]"
    by (simp add: undisturbed_def queue_init_def queue_push_def queue_pop_def
        AIVORY_MESSAGE_QUEUE_SIZE_def)
  from queue_bounded_fifo [of "[Push ''r1'' True True, Push ''r2'' True True, Pop]" "''r3''"
      True True] u
  show ?thesis by (simp add: most_recent_def)
qed

text \<open>
  Claim C1 as the specification states it fails in three ways. A pop on the empty queue
  removes nothing: after pop, push r1, push r2 there are \<open>N = 2\<close> pushes and
  \<open>M = 1 \<le> N\<close> pops, so the claim gives \<open>min (N - M) 100 = 1\<close> live entry, but both
  records are live. An eviction is not undone by a later pop: after 101 pushes and
  one pop the claim gives \<open>min (101 - 1) 100 = 100\<close> live entries, but 99 are live. And
  a push can fail to store its record: when the entry is not allocated the record is
  rejected, so one push leaves no live entry, and when the copy of the text fails the one
  live entry has no text.
\<close>

theorem queue_live_entries_counterexample:
  "pops [Pop, Push ''r1'' True True, Push ''r2'' True True]
     \<le> pushes [Pop, Push ''r1'' True True, Push ''r2'' True True]
   \<and> min (pushes [Pop, Push ''r1'' True True, Push ''r2'' True True]
          - pops [Pop, Push ''r1'' True True, Push ''r2'' True True]) 100 = 1
   \<and> most_recent 1 (records [Pop, Push ''r1'' True True, Push ''r2'' True True]) = [''r2'']
   \<and> entries (queue_run [Pop, Push ''r1'' True True, Push ''r2'' True True])
       = [Some ''r1'', Some ''r2'']
   \<and> entries (queue_run [Pop, Push ''r1'' True True, Push ''r2'' True True])
       \<noteq> map Some (most_recent
            (min (pushes [Pop, Push ''r1'' True True, Push ''r2'' True True]
                  - pops [Pop, Push ''r1'' True True, Push ''r2'' True True]) 100)
            (records [Pop, Push ''r1'' True True, Push ''r2'' True True]))
   \<and> pushes (replicate 101 (Push ''r'' True True) @ [Pop]) = 101
   \<and> pops (replicate 101 (Push ''r'' True True) @ [Pop]) = 1
   \<and> min (pushes (replicate 101 (Push ''r'' True True) @ [Pop])
          - pops (replicate 101 (Push ''r'' True True) @ [Pop])) 100 = 100
   \<and> length (entries (queue_run (replicate 101 (Push ''r'' True True) @ [Pop]))) = 99
   \<and> min (pushes [Push ''r1'' False True] - pops [Push ''r1'' False True]) 100 = 1
   \<and> entries (queue_run [Push ''r1'' False True]) = []
   \<and> min (pushes [Push ''r1'' True False] - pops [Push ''r1'' True False]) 100 = 1
   \<and> entries (queue_run [Push ''r1'' True False]) = [None]"
proof -
  have a: "entries (queue_run [Pop, Push ''r1'' True True, Push ''r2'' True True])
       = [Some ''r1'', Some ''r2'']"
    by (simp add: queue_run_def queue_init_def queue_push_def queue_pop_def
        AIVORY_MESSAGE_QUEUE_SIZE_def)
  have b: "pushes (replicate 101 (Push ''r'' True True) @ [Pop]) = 101"
    "pops (replicate 101 (Push ''r'' True True) @ [Pop]) = 1"
    by (simp_all add: pushes_snoc pops_snoc counts_replicate_push)
  have c: "entries (queue_run [Push ''r1'' False True]) = []"
    "entries (queue_run [Push ''r1'' True False]) = [None]"
    by (simp_all add: queue_run_def queue_init_def queue_push_def
        AIVORY_MESSAGE_QUEUE_SIZE_def)
  from a b c queue_run_101_pop show ?thesis by (simp add: most_recent_def)
qed

section \<open>Properties of the escape encoder\<close>

lemma escape_switch_spec: "escape_switch c = spec_escape_byte c"
  by (simp add: escape_switch_def spec_escape_byte_def)

lemma escape_loop_spec: "escape_loop s dst = dst @ spec_escape s"
  by (induction s arbitrary: dst) (simp_all add: spec_escape_def escape_switch_spec)

lemma spec_unescape_plain: "c \<noteq> CHR 0x5C \<Longrightarrow> spec_unescape (c # r) = c # spec_unescape r"
  by (cases r) simp_all

lemma spec_unescape_byte: "spec_unescape (spec_escape_byte c @ r) = c # spec_unescape r"
  by (simp add: spec_escape_byte_def spec_unescape_plain)

lemma spec_unescape_escape: "spec_unescape (spec_escape s) = s"
  by (induction s) (simp_all add: spec_escape_def spec_unescape_byte)

lemma length_spec_escape: "length (spec_escape s) \<le> 2 * length s"
  by (induction s) (auto simp: spec_escape_def spec_escape_byte_def)

text \<open>
  Claim C6. For every string \<open>s\<close> (and a successful allocation of the output buffer) the
  encoder's output is the specification's escaping of \<open>s\<close>: exactly backslash, double
  quote, newline, carriage return and tab are replaced by their two-character escapes and
  every other byte is passed through; decoding the output gives \<open>s\<close> back; two strings
  with the same escaped form are equal; and the output fits the buffer of
  \<open>2 * length s + 1\<close> bytes that the source allocates.
\<close>

theorem escape_json_string_roundtrip:
  "escape_json_string True (Some s) = spec_escape s
   \<and> spec_unescape (escape_json_string True (Some s)) = s
   \<and> (escape_json_string True (Some s) = escape_json_string True (Some t) \<longrightarrow> s = t)
   \<and> length (escape_json_string True (Some s)) \<le> 2 * length s"
proof -
  have e: "\<And>u. escape_json_string True (Some u) = spec_escape u"
    by (simp add: escape_json_string_def escape_loop_spec)
  have inj: "spec_escape s = spec_escape t \<longrightarrow> s = t"
  proof
    assume "spec_escape s = spec_escape t"
    then have "spec_unescape (spec_escape s) = spec_unescape (spec_escape t)" by simp
    then show "s = t" by (simp add: spec_unescape_escape)
  qed
  show ?thesis using inj by (simp add: e spec_unescape_escape length_spec_escape)
qed

text \<open>The theorem at a string that holds each of the five escaped bytes.\<close>

theorem escape_json_string_roundtrip_witness:
  "escape_json_string True (Some [CHR ''a'', CHR 0x22, CHR 0x5C, CHR 0x0A, CHR 0x0D, CHR 0x09, CHR ''z''])
     = [CHR ''a'', CHR 0x5C, CHR 0x22, CHR 0x5C, CHR 0x5C, CHR 0x5C, CHR ''n'', CHR 0x5C, CHR ''r'',
        CHR 0x5C, CHR ''t'', CHR ''z'']
   \<and> spec_unescape [CHR ''a'', CHR 0x5C, CHR 0x22, CHR 0x5C, CHR 0x5C, CHR 0x5C, CHR ''n'', CHR 0x5C, CHR ''r'',
        CHR 0x5C, CHR ''t'', CHR ''z'']
     = [CHR ''a'', CHR 0x22, CHR 0x5C, CHR 0x0A, CHR 0x0D, CHR 0x09, CHR ''z'']"
  using escape_json_string_roundtrip
    [of "[CHR ''a'', CHR 0x22, CHR 0x5C, CHR 0x0A, CHR 0x0D, CHR 0x09, CHR ''z'']"
        "[CHR ''a'', CHR 0x22, CHR 0x5C, CHR 0x0A, CHR 0x0D, CHR 0x09, CHR ''z'']"]
  by (simp add: spec_escape_def spec_escape_byte_def)

section \<open>Properties of the fingerprint\<close>

lemma hash_round_33:
  "hash_round pf h c = (h * 33 + char_value pf c) mod 2 ^ long_bits pf"
proof -
  have "(h * 2 ^ 5 mod 2 ^ long_bits pf + h) mod 2 ^ long_bits pf = (h * 33) mod 2 ^ long_bits pf"
    by (simp add: mod_simps algebra_simps)
  then show ?thesis
    by (simp add: hash_round_def wrap_ulong_def mod_simps)
qed

lemma hash_type_foldl: "hash_type pf h s = hash_bytes pf h s"
  by (induction s arbitrary: h) (simp_all add: hash_bytes_def hash_round_33)

lemma hash_backtrace_foldl:
  "0 \<le> k \<Longrightarrow> k \<le> 500 \<Longrightarrow> hash_backtrace pf h k s = hash_bytes pf h (take (nat (500 - k)) s)"
proof (induction s arbitrary: h k)
  case Nil
  then show ?case by (simp add: hash_bytes_def)
next
  case (Cons c cs)
  show ?case
  proof (cases "k < 500")
    case True
    then have m: "nat (500 - k) = Suc (nat (500 - (k + 1)))" by arith
    have k1: "0 \<le> k + 1" "k + 1 \<le> 500" using True Cons.prems by simp_all
    have "hash_backtrace pf h k (c # cs) = hash_backtrace pf (hash_round pf h c) (k + 1) cs"
      using True by simp
    also have "\<dots> = hash_bytes pf (hash_round pf h c) (take (nat (500 - (k + 1))) cs)"
      using k1 by (rule Cons.IH)
    also have "\<dots> = hash_bytes pf h (take (nat (500 - k)) (c # cs))"
      by (simp only: m take_Suc_Cons) (simp add: hash_bytes_def hash_round_33)
    finally show ?thesis .
  next
    case False
    with Cons.prems show ?thesis by (simp add: hash_bytes_def)
  qed
qed


lemma replicate_numeral: "replicate (numeral k) x = x # replicate (pred_numeral k) x"
  by (simp add: numeral_eq_Suc)

lemma hex_digit_in: "hex_digit d \<in> hex_chars"
  unfolding hex_chars_def hex_digit_def by (rule nth_mem) simp

lemma zero_in_hex_chars: "CHR ''0'' \<in> hex_chars"
  by (simp add: hex_chars_def)

lemma hex_of_nat_chars: "set (hex_of_nat n) \<subseteq> hex_chars"
proof (induction n rule: hex_of_nat.induct)
  case (1 n)
  show ?case
  proof (cases "n < 16")
    case True
    then have "hex_of_nat n = [hex_digit n]" by (subst hex_of_nat.simps) simp
    then show ?thesis using hex_digit_in [of n] by simp
  next
    case False
    then have "hex_of_nat n = hex_of_nat (n div 16) @ [hex_digit (n mod 16)]"
      by (subst hex_of_nat.simps) simp
    moreover have "set (hex_of_nat (n div 16)) \<subseteq> hex_chars"
      using False by (rule "1.IH")
    ultimately show ?thesis using hex_digit_in [of "n mod 16"] by simp
  qed
qed

lemma snprintf_17_016lx_format:
  "length (snprintf_17_016lx h) = 16 \<and> set (snprintf_17_016lx h) \<subseteq> hex_chars"
proof -
  let ?d = "hex_of_nat (nat h)"
  have p: "printf_016lx h = replicate (16 - length ?d) CHR ''0'' @ ?d"
    by (simp add: printf_016lx_def Let_def)
  have len: "16 \<le> length (printf_016lx h)" by (simp add: p)
  have "set (replicate (16 - length ?d) CHR ''0'') \<subseteq> {CHR ''0''}" by auto
  then have "set (replicate (16 - length ?d) CHR ''0'') \<subseteq> hex_chars"
    using zero_in_hex_chars by blast
  then have chars: "set (printf_016lx h) \<subseteq> hex_chars"
    using hex_of_nat_chars [of "nat h"] by (simp only: p set_append Un_subset_iff) 
  have "set (take 16 (printf_016lx h)) \<subseteq> set (printf_016lx h)" by (rule set_take_subset)
  with chars have c2: "set (snprintf_17_016lx h) \<subseteq> hex_chars"
    by (simp only: snprintf_17_016lx_def)
  have "length (snprintf_17_016lx h) = 16" using len by (simp add: snprintf_17_016lx_def)
  with c2 show ?thesis by blast
qed

lemma fingerprint_closed_form:
  "aivory_calculate_fingerprint pf True type backtrace =
     Some (snprintf_17_016lx (hash_bytes pf (5381 mod 2 ^ long_bits pf)
             (str_or_empty type @ take 500 (str_or_empty backtrace))))"
proof -
  have b: "\<And>h s. hash_backtrace pf h 0 s = hash_bytes pf h (take 500 s)"
    using hash_backtrace_foldl [of 0 pf] by simp
  have app: "\<And>h s t. hash_bytes pf (hash_bytes pf h s) t = hash_bytes pf h (s @ t)"
    by (simp add: hash_bytes_def)
  have nil: "\<And>h. hash_bytes pf h [] = h" by (simp add: hash_bytes_def)
  show ?thesis
    by (cases type; cases backtrace)
       (simp_all add: aivory_calculate_fingerprint_def Let_def wrap_ulong_def str_or_empty_def
          hash_type_foldl b app nil)
qed

lemma hash_bytes_spec:
  assumes "long_bits pf = 64" "\<forall>c \<in> set s. char_signed pf \<longrightarrow> (of_char c :: int) < 128"
  shows "hash_bytes pf h s = foldl (\<lambda>h b. (h * 33 + of_char b) mod 2 ^ 64) h s"
  using assms(2)
proof (induction s arbitrary: h)
  case Nil
  show ?case by (simp add: hash_bytes_def)
next
  case (Cons c cs)
  have cv: "char_value pf c = of_char c" using Cons.prems by (auto simp: char_value_def)
  have "hash_bytes pf h (c # cs) = hash_bytes pf ((h * 33 + of_char c) mod 2 ^ 64) cs"
    by (simp add: hash_bytes_def cv assms(1))
  also have "\<dots> = foldl (\<lambda>h b. (h * 33 + of_char b) mod 2 ^ 64) ((h * 33 + of_char c) mod 2 ^ 64) cs"
    using Cons.prems by (intro Cons.IH) simp
  finally show ?case by simp
qed

text \<open>
  Claim C2, as the code has it. On every platform and for every pair of arguments (either
  may be \<^verbatim>\<open>NULL\<close>), when the 17-byte result buffer is allocated the fingerprint is a
  string of exactly 16 characters, each a lower-case hexadecimal digit. It is the
  zero-padded hexadecimal form of the hash that starts at 5381 and takes one round
  \<open>h \<leftarrow> (h * 33 + c) mod 2 ^ W\<close> per character of the type label followed by the first
  500 characters of the backtrace, where \<open>W\<close> is the platform's width of
  \<^verbatim>\<open>unsigned long\<close> and \<open>c\<close> is the value of the \<^verbatim>\<open>char\<close> (a byte from 0x80 on counts
  as the byte minus 256 where \<^verbatim>\<open>char\<close> is signed). The result is a function of the
  platform and the two arguments only. Where \<open>W = 64\<close> and no byte from 0x80 on meets a
  signed \<^verbatim>\<open>char\<close>, it is the fingerprint of the specification.
\<close>

theorem fingerprint_format_and_hash:
  "(\<exists>fp. aivory_calculate_fingerprint pf True type backtrace = Some fp
          \<and> length fp = 16 \<and> set fp \<subseteq> set ''0123456789abcdef'')
   \<and> aivory_calculate_fingerprint pf True type backtrace =
        Some (snprintf_17_016lx (hash_bytes pf (5381 mod 2 ^ long_bits pf)
               (str_or_empty type @ take 500 (str_or_empty backtrace))))
   \<and> (long_bits pf = 64
        \<and> (\<forall>c \<in> set (str_or_empty type @ take 500 (str_or_empty backtrace)).
              char_signed pf \<longrightarrow> (of_char c :: int) < 128)
      \<longrightarrow> aivory_calculate_fingerprint pf True type backtrace =
            Some (spec_fingerprint (str_or_empty type) (str_or_empty backtrace)))"
proof -
  let ?s = "str_or_empty type @ take 500 (str_or_empty backtrace)"
  have cf: "aivory_calculate_fingerprint pf True type backtrace =
        Some (snprintf_17_016lx (hash_bytes pf (5381 mod 2 ^ long_bits pf) ?s))"
    by (rule fingerprint_closed_form)
  have fmt: "\<exists>fp. aivory_calculate_fingerprint pf True type backtrace = Some fp
          \<and> length fp = 16 \<and> set fp \<subseteq> set ''0123456789abcdef''"
    using snprintf_17_016lx_format [of "hash_bytes pf (5381 mod 2 ^ long_bits pf) ?s"]
    by (simp only: cf hex_chars_def) blast
  have sp: "long_bits pf = 64
        \<and> (\<forall>c \<in> set ?s. char_signed pf \<longrightarrow> (of_char c :: int) < 128)
      \<longrightarrow> aivory_calculate_fingerprint pf True type backtrace =
            Some (spec_fingerprint (str_or_empty type) (str_or_empty backtrace))"
  proof
    assume a: "long_bits pf = 64 \<and> (\<forall>c \<in> set ?s. char_signed pf \<longrightarrow> (of_char c :: int) < 128)"
    then have "hash_bytes pf (5381 mod 2 ^ long_bits pf) ?s = spec_hash ?s"
      using hash_bytes_spec [of pf ?s "5381 mod 2 ^ long_bits pf"] by (simp add: spec_hash_def)
    then show "aivory_calculate_fingerprint pf True type backtrace =
            Some (spec_fingerprint (str_or_empty type) (str_or_empty backtrace))"
      by (simp only: cf spec_fingerprint_def)
  qed
  from fmt cf sp show ?thesis by blast
qed



lemmas hex_eval = snprintf_17_016lx_def printf_016lx_def hex_digit_def Let_def replicate_numeral
  hex_of_nat.simps

lemmas hash_eval = hash_bytes_def char_value_def linux_x86_64_def linux_i386_def
  linux_aarch64_def str_or_empty_def


text \<open>
  Claim C2 as stated fails across platforms. The same inputs, the label \<open>Error\<close> and the
  backtrace \<open>[]\<close>, give different fingerprints on x86-64 Linux (64-bit \<^verbatim>\<open>unsigned long\<close>)
  and on i386 Linux (32-bit). And with the single byte 0xE9 as backtrace, x86-64 Linux
  (signed \<^verbatim>\<open>char\<close>) differs from AArch64 Linux (unsigned \<^verbatim>\<open>char\<close>) and from the hash
  \<open>h * 33 + b\<close> over the bytes.
\<close>

theorem fingerprint_platform_counterexample:
  "aivory_calculate_fingerprint linux_x86_64 True (Some ''Error'') (Some ''[]'')
     = Some ''0000d0a8d56bcda7''
   \<and> aivory_calculate_fingerprint linux_i386 True (Some ''Error'') (Some ''[]'')
     = Some ''00000000d56bcda7''
   \<and> aivory_calculate_fingerprint linux_x86_64 True (Some ''Error'') (Some ''[]'')
     \<noteq> aivory_calculate_fingerprint linux_i386 True (Some ''Error'') (Some ''[]'')
   \<and> aivory_calculate_fingerprint linux_x86_64 True (Some ''Error'') (Some [CHR 0xE9])
     = Some ''00000652b1224b98''
   \<and> aivory_calculate_fingerprint linux_aarch64 True (Some ''Error'') (Some [CHR 0xE9])
     = Some ''00000652b1224c98''
   \<and> spec_fingerprint ''Error'' [CHR 0xE9] = ''00000652b1224c98''"
proof -
  have a: "aivory_calculate_fingerprint linux_x86_64 True (Some ''Error'') (Some ''[]'')
     = Some ''0000d0a8d56bcda7''"
    by (simp add: fingerprint_closed_form hash_eval hex_eval)
  have b: "aivory_calculate_fingerprint linux_i386 True (Some ''Error'') (Some ''[]'')
     = Some ''00000000d56bcda7''"
    by (simp add: fingerprint_closed_form hash_eval hex_eval)
  have c: "aivory_calculate_fingerprint linux_x86_64 True (Some ''Error'') (Some [CHR 0xE9])
     = Some ''00000652b1224b98''"
    by (simp add: fingerprint_closed_form hash_eval hex_eval)
  have d: "aivory_calculate_fingerprint linux_aarch64 True (Some ''Error'') (Some [CHR 0xE9])
     = Some ''00000652b1224c98''"
    by (simp add: fingerprint_closed_form hash_eval hex_eval)
  have e: "spec_fingerprint ''Error'' [CHR 0xE9] = ''00000652b1224c98''"
    by (simp add: spec_fingerprint_def spec_hash_def hex_eval)
  show ?thesis by (simp add: a b c d e)
qed

text \<open>
  The theorem on x86-64 Linux at the label \<open>SIGSEGV\<close> and the backtrace \<open>[]\<close>: the
  hypotheses of its last part hold, and the fingerprint is the specification's.
\<close>

theorem fingerprint_format_and_hash_witness:
  "long_bits linux_x86_64 = 64
   \<and> aivory_calculate_fingerprint linux_x86_64 True (Some ''SIGSEGV'') (Some ''[]'')
       = Some (spec_fingerprint ''SIGSEGV'' ''[]'')
   \<and> spec_fingerprint ''SIGSEGV'' ''[]'' = ''0377ae783546eb75''"
proof -
  have h: "long_bits linux_x86_64 = 64
     \<and> (\<forall>c \<in> set (str_or_empty (Some ''SIGSEGV'') @ take 500 (str_or_empty (Some ''[]''))).
           char_signed linux_x86_64 \<longrightarrow> (of_char c :: int) < 128)"
    by (simp add: linux_x86_64_def str_or_empty_def)
  have "aivory_calculate_fingerprint linux_x86_64 True (Some ''SIGSEGV'') (Some ''[]'')
       = Some (spec_fingerprint (str_or_empty (Some ''SIGSEGV'')) (str_or_empty (Some ''[]'')))"
    using fingerprint_format_and_hash [of linux_x86_64 "Some ''SIGSEGV''" "Some ''[]''"] h
    by blast
  then have r: "aivory_calculate_fingerprint linux_x86_64 True (Some ''SIGSEGV'') (Some ''[]'')
       = Some (spec_fingerprint ''SIGSEGV'' ''[]'')"
    by (simp add: str_or_empty_def)
  have v: "spec_fingerprint ''SIGSEGV'' ''[]'' = ''0377ae783546eb75''"
    by (simp add: spec_fingerprint_def spec_hash_def hex_eval)
  from h r v show ?thesis by blast
qed


section \<open>Properties of the transport state machine\<close>

lemma ws_receive_attempts:
  "reconnect_attempts (fst (ws_receive msg conn)) = reconnect_attempts conn"
  by (simp add: ws_receive_def Let_def split: prod.splits)

lemma ws_callback_attempts:
  assumes "ws_callback env reason data (Some conn) = (Some conn', effects)"
  shows "reconnect_attempts conn' = reconnect_attempts conn"
proof (cases reason)
  case LWS_CALLBACK_CLIENT_RECEIVE
  show ?thesis
  proof (cases "\<exists>bytes. data = Some bytes \<and> length bytes > 0 \<and> msg_ok env")
    case True
    then obtain bytes where d: "data = Some bytes" "length bytes > 0" "msg_ok env" by blast
    let ?r = "ws_receive (takeWhile (\<lambda>c. c \<noteq> CHR 0x00) bytes) conn"
    have "conn' = fst ?r"
      using assms LWS_CALLBACK_CLIENT_RECEIVE d
      by (simp add: ws_callback_def split: prod.splits)
    then show ?thesis by (simp add: ws_receive_attempts)
  next
    case False
    then have "conn' = conn"
      using assms LWS_CALLBACK_CLIENT_RECEIVE
      by (auto simp: ws_callback_def split: option.splits if_splits)
    then show ?thesis by simp
  qed
qed (use assms in \<open>auto simp: ws_callback_def split: option.splits if_splits prod.splits\<close>)

lemma ws_callback_Some:
  "\<exists>conn' effects. ws_callback env reason data (Some conn) = (Some conn', effects)"
  by (cases reason)
     (auto simp: ws_callback_def Let_def split: option.splits if_splits prod.splits)

lemma reconnect_attempts_step:
  "reconnect_attempts (snd (reconnect conn)) =
     (if should_stop conn then reconnect_attempts conn else reconnect_attempts conn + 1)"
  by (simp add: reconnect_def Let_def)

lemma reconnect_break:
  "fst (reconnect conn) = Worker_break \<longleftrightarrow> should_stop conn \<or> reconnect_attempts conn \<ge> 10"
  by (simp add: reconnect_def Let_def)

lemma worker_run_attempts_mono:
  "reconnect_attempts conn \<le> reconnect_attempts (worker_run conn evs)"
proof (induction conn evs rule: worker_run.induct)
  case (1 conn)
  show ?case by simp
next
  case (2 conn env reason data evs)
  obtain conn' effects where c: "ws_callback env reason data (Some conn) = (Some conn', effects)"
    using ws_callback_Some by blast
  then have "reconnect_attempts conn' = reconnect_attempts conn" by (rule ws_callback_attempts)
  moreover have "reconnect_attempts conn' \<le> reconnect_attempts (worker_run conn' evs)"
    using c by (intro "2.IH") simp
  ultimately show ?case using c by simp
next
  case (3 conn evs)
  show ?case
  proof (cases "reconnect conn")
    case (Pair nxt conn')
    have s: "reconnect_attempts conn \<le> reconnect_attempts conn'"
      using reconnect_attempts_step [of conn] Pair by (simp split: if_splits)
    show ?thesis
    proof (cases nxt)
      case Worker_break
      with Pair s show ?thesis by simp
    next
      case (Worker_sleep delay)
      then have "reconnect_attempts conn' \<le> reconnect_attempts (worker_run conn' evs)"
        using Pair by (intro "3.IH") simp_all
      with Pair Worker_sleep s show ?thesis by simp
    qed
  qed
qed

lemma drain_queue_init: "drain_queue queue_init = ([], queue_init)"
  by (subst drain_queue.simps) (simp add: queue_pop_def queue_init_def)

lemma example_registered_callback: "ws_callback \<lparr>reg_msg = None, msg_ok = True\<rparr> LWS_CALLBACK_CLIENT_RECEIVE
          (Some example_registered_frame) (Some example_connection)
        = (Some (example_connection\<lparr>authenticated := True, state := AIVORY_CONN_AUTHENTICATED\<rparr>), [])"
  by (simp add: ws_callback_def ws_receive_def example_registered_frame_def example_connection_def drain_queue_init)


lemma example_closed_callback:
  "ws_callback \<lparr>reg_msg = None, msg_ok = True\<rparr> LWS_CALLBACK_CLIENT_CLOSED None
          (Some (example_connection\<lparr>authenticated := True, state := AIVORY_CONN_AUTHENTICATED\<rparr>))
        = (Some (example_connection\<lparr>authenticated := False, state := AIVORY_CONN_DISCONNECTED,
                   wsi := False\<rparr>), [])"
  by (simp add: ws_callback_def example_connection_def)

text \<open>
  Claim C5, as the code has it. A callback that leaves the connection in the state
  \<open>AUTHENTICATED\<close> leaves the reconnect attempt counter as it was; no callback changes
  it. Each pass through the reconnect point adds one to it unless the worker is
  stopping, and ends the worker once ten attempts are behind it. So over any life of the
  worker the counter never decreases: the budget of 10 attempts is for the whole life
  of the worker, authentications included.
\<close>

theorem authenticated_keeps_reconnect_attempts:
  "(ws_callback env reason data (Some conn) = (Some conn', effects)
      \<and> state conn' = AIVORY_CONN_AUTHENTICATED
     \<longrightarrow> reconnect_attempts conn' = reconnect_attempts conn)
   \<and> reconnect_attempts (snd (reconnect conn)) =
        (if should_stop conn then reconnect_attempts conn else reconnect_attempts conn + 1)
   \<and> (fst (reconnect conn) = Worker_break
        \<longleftrightarrow> should_stop conn \<or> reconnect_attempts conn \<ge> 10)
   \<and> reconnect_attempts conn \<le> reconnect_attempts (worker_run conn evs)"
  using ws_callback_attempts [of env reason data conn conn' effects]
    reconnect_attempts_step [of conn] reconnect_break [of conn]
    worker_run_attempts_mono [of conn evs]
  by blast

text \<open>
  The theorem at the example: the acknowledgement of the registration moves the
  connection to \<open>AUTHENTICATED\<close>, and the counter is still 10.
\<close>

theorem authenticated_keeps_reconnect_attempts_witness:
  "ws_callback \<lparr>reg_msg = None, msg_ok = True\<rparr> LWS_CALLBACK_CLIENT_RECEIVE
       (Some example_registered_frame) (Some example_connection)
     = (Some (example_connection\<lparr>authenticated := True, state := AIVORY_CONN_AUTHENTICATED\<rparr>), [])
   \<and> state (example_connection\<lparr>authenticated := True, state := AIVORY_CONN_AUTHENTICATED\<rparr>)
       = AIVORY_CONN_AUTHENTICATED
   \<and> reconnect_attempts
        (example_connection\<lparr>authenticated := True, state := AIVORY_CONN_AUTHENTICATED\<rparr>)
       = reconnect_attempts example_connection"
  using authenticated_keeps_reconnect_attempts
    [of "\<lparr>reg_msg = None, msg_ok = True\<rparr>" LWS_CALLBACK_CLIENT_RECEIVE
        "Some example_registered_frame" example_connection
        "example_connection\<lparr>authenticated := True, state := AIVORY_CONN_AUTHENTICATED\<rparr>" "[]"
        "[]"]
    example_registered_callback
  by simp

text \<open>
  Claim C5 as stated fails. The connection of the example has ten reconnect attempts
  behind it. The service acknowledges the registration: the state becomes
  \<open>AUTHENTICATED\<close> and the counter is still 10, not 0. When that connection then closes,
  the next pass through the reconnect point ends the worker instead of granting ten
  fresh attempts.
\<close>

theorem authenticated_reset_counterexample:
  "ws_callback \<lparr>reg_msg = None, msg_ok = True\<rparr> LWS_CALLBACK_CLIENT_RECEIVE
       (Some example_registered_frame) (Some example_connection)
     = (Some (example_connection\<lparr>authenticated := True, state := AIVORY_CONN_AUTHENTICATED\<rparr>), [])
   \<and> reconnect_attempts
        (example_connection\<lparr>authenticated := True, state := AIVORY_CONN_AUTHENTICATED\<rparr>) = 10
   \<and> reconnect_attempts
        (example_connection\<lparr>authenticated := True, state := AIVORY_CONN_AUTHENTICATED\<rparr>) \<noteq> 0
   \<and> ws_callback \<lparr>reg_msg = None, msg_ok = True\<rparr> LWS_CALLBACK_CLIENT_CLOSED None
       (Some (example_connection\<lparr>authenticated := True, state := AIVORY_CONN_AUTHENTICATED\<rparr>))
     = (Some (example_connection\<lparr>authenticated := False, state := AIVORY_CONN_DISCONNECTED,
                wsi := False\<rparr>), [])
   \<and> fst (reconnect (example_connection\<lparr>authenticated := False,
               state := AIVORY_CONN_DISCONNECTED, wsi := False\<rparr>)) = Worker_break"
proof -
  have a: "reconnect_attempts
        (example_connection\<lparr>authenticated := True, state := AIVORY_CONN_AUTHENTICATED\<rparr>) = 10"
    by (simp add: example_connection_def)
  have b: "fst (reconnect (example_connection\<lparr>authenticated := False,
               state := AIVORY_CONN_DISCONNECTED, wsi := False\<rparr>)) = Worker_break"
    by (simp add: reconnect_def example_connection_def Let_def)
  from a b example_registered_callback example_closed_callback show ?thesis by simp
qed

section \<open>Properties of the URL parser\<close>

lemma takeWhile_stop:
  assumes "\<forall>x \<in> set h. P x" "rest = [] \<or> \<not> P (hd rest)"
  shows "takeWhile P (h @ rest) = h" "dropWhile P (h @ rest) = rest"
  using assms by (cases rest; simp add: takeWhile_append dropWhile_append)+

lemma digits_value_nonneg: "\<forall>c \<in> set ds. isdigit c \<Longrightarrow> 0 \<le> a \<Longrightarrow>
    0 \<le> foldl (\<lambda>a c. a * 10 + (of_char c - 48)) (a::int) ds"
proof (induction ds arbitrary: a)
  case Nil then show ?case by simp
next
  case (Cons c ds)
  then have "(48::nat) \<le> of_char c" by (simp add: isdigit_def)
  then have "(48::int) \<le> of_char c" by (metis of_nat_le_iff of_nat_numeral of_nat_of_char)
  with Cons.prems have "0 \<le> a * 10 + (of_char c - 48)" by simp
  with Cons show ?case by simp
qed

lemma isdigit_facts:
  "isdigit c \<Longrightarrow> \<not> isspace c \<and> c \<noteq> CHR ''-'' \<and> c \<noteq> CHR ''+'' \<and> c \<noteq> CHR ''/''"
  by (auto simp: isdigit_def isspace_def)

lemma slash_facts:
  "\<not> isspace CHR ''/''" "\<not> isdigit CHR ''/''"
  by (simp_all add: isdigit_def isspace_def)

lemma atoi_digits:
  assumes d: "\<forall>c \<in> set ds. isdigit c" and v: "digits_value ds \<le> 2147483647"
    and p: "path_text pth"
  shows "atoi (ds @ pth) = Some (digits_value ds)"
proof -
  let ?s = "ds @ pth"
  have fst_ok: "?s = [] \<or> (\<not> isspace (hd ?s) \<and> hd ?s \<noteq> CHR ''-'' \<and> hd ?s \<noteq> CHR ''+'')"
  proof (cases ds)
    case Nil
    with p show ?thesis by (cases pth) (auto simp: path_text_def slash_facts)
  next
    case (Cons c cs)
    with d have "isdigit c" by simp
    with Cons isdigit_facts [of c] show ?thesis by simp
  qed
  have s1: "dropWhile isspace ?s = ?s"
    using fst_ok by (cases ?s) auto
  have tw: "takeWhile isdigit ?s = ds"
    using d p by (intro takeWhile_stop(1)) (auto simp: path_text_def slash_facts)
  have nn: "0 \<le> digits_value ds"
    unfolding digits_value_def using d by (intro digits_value_nonneg) simp_all
  show ?thesis
    using fst_ok nn v by (simp add: atoi_def s1 tw Let_def) (cases ?s; auto)
qed


lemma parse_url_scheme:
  "parse_url (url_text ssl h po pth) =
     parse_url_after_scheme ssl (if ssl then 443 else 80)
       (h @ (case po of None \<Rightarrow> [] | Some ds \<Rightarrow> CHR '':'' # ds) @ pth)"
  by (cases ssl) (simp_all add: parse_url_def url_text_def)

lemma host_scan:
  assumes "host_chars h"
  shows "takeWhile (\<lambda>c. c \<noteq> CHR '':'' \<and> c \<noteq> CHR ''/'') (h @ ys)
           = h @ takeWhile (\<lambda>c. c \<noteq> CHR '':'' \<and> c \<noteq> CHR ''/'') ys"
    and "dropWhile (\<lambda>c. c \<noteq> CHR '':'' \<and> c \<noteq> CHR ''/'') (h @ ys)
           = dropWhile (\<lambda>c. c \<noteq> CHR '':'' \<and> c \<noteq> CHR ''/'') ys"
  using assms by (simp_all add: host_chars_def)

lemma host_scan_all:
  assumes "host_chars h"
  shows "takeWhile (\<lambda>c. c \<noteq> CHR '':'' \<and> c \<noteq> CHR ''/'') h = h"
    and "dropWhile (\<lambda>c. c \<noteq> CHR '':'' \<and> c \<noteq> CHR ''/'') h = []"
  using assms by (simp_all add: host_chars_def)

lemma parse_url_long_host:
  assumes "host_chars h" "path_text pth" "length h \<ge> 256"
  shows "parse_url (url_text ssl h po pth) = Parse_error"
  using assms(3) by (simp add: parse_url_scheme parse_url_after_scheme_def host_scan [OF assms(1)] Let_def)

lemma parse_url_no_port:
  assumes h: "host_chars h" and l: "length h < 256" and p: "path_text pth"
  shows "parse_url (url_text ssl h None pth) =
     Parse_ok \<lparr>url_host = h, url_port = (if ssl then 443 else 80),
               url_path = (if pth = [] then ''/'' else take 511 pth), url_use_ssl = ssl\<rparr>"
proof (cases pth)
  case Nil
  with l show ?thesis by (simp add: parse_url_scheme parse_url_after_scheme_def host_scan_all [OF h] Let_def)
next
  case (Cons c r)
  with p have c: "c = CHR ''/''" by (simp add: path_text_def)
  with l Cons show ?thesis by (simp add: parse_url_scheme parse_url_after_scheme_def host_scan [OF h] Let_def)
qed

lemma parse_url_port:
  assumes h: "host_chars h" and l: "length h < 256"
    and d: "\<forall>c \<in> set ds. isdigit c" and v: "digits_value ds \<le> 2147483647"
    and p: "path_text pth"
  shows "parse_url (url_text ssl h (Some ds) pth) =
     Parse_ok \<lparr>url_host = h, url_port = digits_value ds,
               url_path = (if pth = [] then ''/'' else take 511 pth), url_use_ssl = ssl\<rparr>"
proof -
  have a: "atoi (ds @ pth) = Some (digits_value ds)" using d v p by (rule atoi_digits)
  have "\<forall>x \<in> set ds. x \<noteq> CHR ''/''" using d isdigit_facts by blast
  moreover have "pth = [] \<or> \<not> (hd pth \<noteq> CHR ''/'')" using p by (simp add: path_text_def)
  ultimately have dw: "dropWhile (\<lambda>c. c \<noteq> CHR ''/'') (ds @ pth) = pth"
    by (rule takeWhile_stop(2))
  have pp: "(if pth \<noteq> [] \<and> hd pth = CHR ''/'' then take 511 pth else ''/'')
              = (if pth = [] then ''/'' else take 511 pth)"
    using p by (cases pth) (auto simp: path_text_def)
  show ?thesis
    using l by (simp add: parse_url_scheme parse_url_after_scheme_def host_scan [OF h] Let_def a dw pp)
qed

lemma parse_url_parts:
  assumes h: "host_chars h" and l: "length h < 256" and po: "port_digits po"
    and p: "path_text pth"
  shows "parse_url (url_text ssl h po pth) =
     Parse_ok \<lparr>url_host = h,
               url_port = (case po of None \<Rightarrow> (if ssl then 443 else 80)
                           | Some ds \<Rightarrow> digits_value ds),
               url_path = (if pth = [] then ''/'' else take 511 pth),
               url_use_ssl = ssl\<rparr>"
proof (cases po)
  case None
  with parse_url_no_port [OF h l p] show ?thesis by simp
next
  case (Some ds)
  from po Some have d: "\<forall>c \<in> set ds. isdigit c" and v: "digits_value ds \<le> 2147483647"
    by (simp_all add: port_digits_def)
  from parse_url_port [OF h l d v p] Some show ?thesis by simp
qed

lemma parse_url_other_scheme:
  "take 6 url \<noteq> ''wss://'' \<Longrightarrow> take 5 url \<noteq> ''ws://'' \<Longrightarrow> parse_url url = Parse_error"
  by (simp add: parse_url_def)



lemmas parse_url_eval = parse_url_def parse_url_after_scheme_def atoi_def isspace_def
  isdigit_def digits_value_def Let_def

lemma parse_url_example_1:
  "parse_url ''wss://host.example:7443/api/v1'' =
     Parse_ok \<lparr>url_host = ''host.example'', url_port = 7443, url_path = ''/api/v1'',
               url_use_ssl = True\<rparr>"
  by (simp add: parse_url_eval)

lemma parse_url_example_2:
  "parse_url ''ws://h/'' =
     Parse_ok \<lparr>url_host = ''h'', url_port = 80, url_path = ''/'', url_use_ssl = False\<rparr>"
  by (simp add: parse_url_eval)

lemma parse_url_example_3: "parse_url ''http://h/'' = Parse_error"
  by (simp add: parse_url_def)

lemma host_chars_replicate: "host_chars (replicate n CHR ''a'')"
  by (simp add: host_chars_def)

text \<open>
  Claim C9, as the code has it. A URL made of the scheme \<open>ws://\<close> or \<open>wss://\<close>, a host
  without colon or slash that is shorter than 256 characters, an optional colon with a
  port of decimal digits (a value that fits an \<^verbatim>\<open>int\<close>), and a path that is empty or starts
  with a slash, is accepted: the host is returned as it is, TLS is on exactly for
  \<open>wss://\<close>, the port is the explicit one or else 80 for \<open>ws://\<close> and 443 for \<open>wss://\<close>,
  and the path is the first 511 characters of the explicit path or else \<open>/\<close>. A host of
  256 characters or more is refused, and so is every URL that starts with neither scheme.
  The two URLs of the specification parse as it says.
\<close>

theorem parse_url_accepts:
  "(host_chars h \<and> length h < 256 \<and> port_digits po \<and> path_text pth
      \<longrightarrow> parse_url (url_text ssl h po pth) =
            Parse_ok \<lparr>url_host = h,
                      url_port = (case po of None \<Rightarrow> (if ssl then 443 else 80)
                                  | Some ds \<Rightarrow> digits_value ds),
                      url_path = (if pth = [] then ''/'' else take 511 pth),
                      url_use_ssl = ssl\<rparr>)
   \<and> (host_chars h \<and> 256 \<le> length h \<and> path_text pth
      \<longrightarrow> parse_url (url_text ssl h po pth) = Parse_error)
   \<and> (take 6 url \<noteq> ''wss://'' \<and> take 5 url \<noteq> ''ws://'' \<longrightarrow> parse_url url = Parse_error)
   \<and> parse_url ''wss://host.example:7443/api/v1'' =
       Parse_ok \<lparr>url_host = ''host.example'', url_port = 7443, url_path = ''/api/v1'',
                 url_use_ssl = True\<rparr>
   \<and> parse_url ''ws://h/'' =
       Parse_ok \<lparr>url_host = ''h'', url_port = 80, url_path = ''/'', url_use_ssl = False\<rparr>"
  using parse_url_parts [of h po pth ssl] parse_url_long_host [of h pth ssl po]
    parse_url_other_scheme [of url] parse_url_example_1 parse_url_example_2
  by blast

text \<open>
  The theorem at the specification's first URL, at a host of 256 characters and at a URL
  with the scheme \<open>http://\<close>.
\<close>

theorem parse_url_accepts_witness:
  "url_text True ''host.example'' (Some ''7443'') ''/api/v1'' = ''wss://host.example:7443/api/v1''
   \<and> parse_url (url_text True ''host.example'' (Some ''7443'') ''/api/v1'') =
       Parse_ok \<lparr>url_host = ''host.example'', url_port = 7443, url_path = ''/api/v1'',
                 url_use_ssl = True\<rparr>
   \<and> parse_url (url_text False (replicate 256 CHR ''a'') None ''/'') = Parse_error
   \<and> parse_url ''http://h/'' = Parse_error"
proof -
  have h1: "host_chars ''host.example'' \<and> length ''host.example'' < 256
      \<and> port_digits (Some ''7443'') \<and> path_text ''/api/v1''"
    by (simp add: host_chars_def port_digits_def path_text_def isdigit_def digits_value_def)
  have h2: "host_chars (replicate 256 CHR ''a'') \<and> 256 \<le> length (replicate 256 CHR ''a'')
      \<and> path_text ''/''"
    by (simp add: host_chars_replicate path_text_def)
  have h3: "take 6 ''http://h/'' \<noteq> ''wss://'' \<and> take 5 ''http://h/'' \<noteq> ''ws://''"
    by simp
  have a: "parse_url (url_text True ''host.example'' (Some ''7443'') ''/api/v1'') =
       Parse_ok \<lparr>url_host = ''host.example'', url_port = digits_value ''7443'',
                 url_path = take 511 ''/api/v1'', url_use_ssl = True\<rparr>"
    using parse_url_accepts [of "''host.example''" "Some ''7443''" "''/api/v1''" True "''http://h/''"] h1
    by simp
  have b: "parse_url (url_text False (replicate 256 CHR ''a'') None ''/'') = Parse_error"
    using parse_url_accepts [of "replicate 256 CHR ''a''" None "''/''" False "''http://h/''"] h2
    by blast
  have c: "parse_url ''http://h/'' = Parse_error"
    using parse_url_accepts [of "''h''" None "''/''" False "''http://h/''"] h3 by blast
  have t: "url_text True ''host.example'' (Some ''7443'') ''/api/v1'' = ''wss://host.example:7443/api/v1''"
    by (simp add: url_text_def)
  from a have a': "parse_url (url_text True ''host.example'' (Some ''7443'') ''/api/v1'') =
       Parse_ok \<lparr>url_host = ''host.example'', url_port = 7443, url_path = ''/api/v1'',
                 url_use_ssl = True\<rparr>"
    by (simp add: digits_value_def)
  from t a' b c show ?thesis by blast
qed

text \<open>
  Claim C9 as stated, for every backend URL, fails at the limits of the two buffers: a
  \<open>ws://\<close> URL whose host has 256 characters is refused, and of a path of 601 characters
  only the first 511 are kept.
\<close>

theorem parse_url_limits_counterexample:
  "parse_url (''ws://'' @ replicate 256 CHR ''a'') = Parse_error
   \<and> parse_url (''ws://h'' @ CHR ''/'' # replicate 600 CHR ''p'') =
       Parse_ok \<lparr>url_host = ''h'', url_port = 80,
                 url_path = CHR ''/'' # replicate 510 CHR ''p'', url_use_ssl = False\<rparr>
   \<and> CHR ''/'' # replicate 510 CHR ''p'' \<noteq> CHR ''/'' # replicate 600 CHR ''p''"
proof -
  have a: "parse_url (url_text False (replicate 256 CHR ''a'') None []) = Parse_error"
    by (rule parse_url_long_host) (simp_all add: host_chars_replicate path_text_def)
  then have a': "parse_url (''ws://'' @ replicate 256 CHR ''a'') = Parse_error"
    by (simp add: url_text_def)
  have "parse_url (url_text False ''h'' None (CHR ''/'' # replicate 600 CHR ''p'')) =
     Parse_ok \<lparr>url_host = ''h'', url_port = (if False then 443 else 80),
               url_path = (if CHR ''/'' # replicate 600 CHR ''p'' = [] then ''/''
                           else take 511 (CHR ''/'' # replicate 600 CHR ''p'')),
               url_use_ssl = False\<rparr>"
    by (rule parse_url_no_port) (simp_all add: host_chars_def path_text_def)
  then have b: "parse_url (''ws://h'' @ CHR ''/'' # replicate 600 CHR ''p'') =
       Parse_ok \<lparr>url_host = ''h'', url_port = 80,
                 url_path = CHR ''/'' # replicate 510 CHR ''p'', url_use_ssl = False\<rparr>"
    by (simp add: url_text_def)
  have c: "CHR ''/'' # replicate 510 CHR ''p'' \<noteq> CHR ''/'' # replicate 600 CHR ''p''"
    by simp
  from a' b c show ?thesis by blast
qed

section \<open>Properties of the initialisation\<close>

lemma aivory_init_initialized:
  "initialized (g_agent w) \<Longrightarrow> aivory_init env config_ptr w = (- 1, w)"
  by (simp add: aivory_init_def)


lemma install_g_agent: "g_agent (aivory_install_signal_handlers w) = g_agent w"
  by (simp add: aivory_install_signal_handlers_def Let_def)

lemma ws_connect_g_agent:
  "g_agent (snd (aivory_ws_connect env w)) = g_agent w
   \<or> g_agent (snd (aivory_ws_connect env w)) = (g_agent w)\<lparr>connection := True\<rparr>"
  by (simp add: aivory_ws_connect_def split: option.splits)

lemma aivory_init_success:
  assumes "\<not> initialized (g_agent w)" "config_ptr = Some cfg" "api_key cfg = Some key" "key \<noteq> []"
  shows "fst (aivory_init env config_ptr w) = 0"
    and "initialized (g_agent (snd (aivory_init env config_ptr w)))"
    and "config (g_agent (snd (aivory_init env config_ptr w))) = cfg"
    and "agent_id (g_agent (snd (aivory_init env config_ptr w))) = new_agent_id env"
    and "hostname (g_agent (snd (aivory_init env config_ptr w))) = new_hostname env"
proof -
  define w3 where "w3 = w\<lparr>g_agent := (g_agent w)\<lparr>config := cfg, agent_id := new_agent_id env,
                                      hostname := new_hostname env\<rparr>\<rparr>"
  define w4 where "w4 = (if capture_signals cfg then aivory_install_signal_handlers w3 else w3)"
  define w5 where "w5 = snd (aivory_ws_connect env w4)"
  have r: "aivory_init env config_ptr w = (0, w5\<lparr>g_agent := (g_agent w5)\<lparr>initialized := True\<rparr>\<rparr>)"
    using assms by (simp add: aivory_init_def Let_def w3_def w4_def w5_def)
  have a4: "g_agent w4 = g_agent w3" by (simp add: w4_def install_g_agent)
  have a5: "g_agent w5 = g_agent w3 \<or> g_agent w5 = (g_agent w3)\<lparr>connection := True\<rparr>"
    using ws_connect_g_agent [of env w4] by (simp add: w5_def a4)
  show "fst (aivory_init env config_ptr w) = 0" by (simp add: r)
  show "initialized (g_agent (snd (aivory_init env config_ptr w)))" by (simp add: r)
  show "config (g_agent (snd (aivory_init env config_ptr w))) = cfg"
    using a5 by (auto simp: r w3_def)
  show "agent_id (g_agent (snd (aivory_init env config_ptr w))) = new_agent_id env"
    using a5 by (auto simp: r w3_def)
  show "hostname (g_agent (snd (aivory_init env config_ptr w))) = new_hostname env"
    using a5 by (auto simp: r w3_def)
qed






lemma example_config_facts:
  "api_key example_config = Some ''test-key-123''"
  "api_key http_url_config = Some ''test-key-123''"
  "backend_url http_url_config = Some ''http://api.aivory.net/monitor''"
  "\<not> initialized (g_agent initial_globals)"
  "g_connection initial_globals = None"
  "calloc_ok example_init_env" "pthread_create_ok example_init_env"
  "capture_signals example_config"
  "new_agent_id example_init_env = Some ''agent-6720c1a9-0badcafe''"
  "new_hostname example_init_env = Some ''host1''"
  by (simp_all add: example_config_def http_url_config_def initial_globals_def zero_agent_def
        example_init_env_def)

text \<open>
  Claim C10. While the agent is initialised, \<^verbatim>\<open>aivory_init\<close> returns -1 and the whole
  global state (the agent with its configuration and identity, the connection, the
  signal handlers) is as it was, whatever configuration is passed and whatever the
  environment would have produced.
\<close>

theorem aivory_init_twice:
  "initialized (g_agent w) \<Longrightarrow> aivory_init env config_ptr w = (- 1, w)"
  by (rule aivory_init_initialized)

text \<open>
  The theorem after a first initialisation with the example configuration: a second call
  with another configuration and another fresh identity changes nothing, and the agent
  identifier is the one of the first call.
\<close>

theorem aivory_init_twice_witness:
  "initialized (g_agent (snd (aivory_init example_init_env (Some example_config) initial_globals)))
   \<and> aivory_init (example_init_env\<lparr>new_agent_id := Some ''agent-2''\<rparr>) (Some http_url_config)
        (snd (aivory_init example_init_env (Some example_config) initial_globals))
      = (- 1, snd (aivory_init example_init_env (Some example_config) initial_globals))
   \<and> agent_id (g_agent (snd (aivory_init example_init_env (Some example_config) initial_globals)))
      = Some ''agent-6720c1a9-0badcafe''"
proof -
  have i: "initialized (g_agent (snd (aivory_init example_init_env (Some example_config) initial_globals)))"
    by (rule aivory_init_success(2) [where cfg = example_config and key = "''test-key-123''"])
       (simp_all add: example_config_facts)
  have a: "agent_id (g_agent (snd (aivory_init example_init_env (Some example_config) initial_globals)))
      = new_agent_id example_init_env"
    by (rule aivory_init_success(4) [where cfg = example_config and key = "''test-key-123''"])
       (simp_all add: example_config_facts)
  from aivory_init_twice [OF i] i a show ?thesis by (simp add: example_config_facts)
qed




section \<open>Properties of the sampling decision\<close>

lemma should_sample_accept:
  "double_ge (sampling_rate cfg) (Double_finite 1) \<Longrightarrow> aivory_should_sample cfg draw = (True, False)"
  by (simp add: aivory_should_sample_def)

lemma double_ge_le_excl:
  "double_le r (Double_finite 0) \<Longrightarrow> \<not> double_ge r (Double_finite 1)"
  by (cases r) (simp_all add: double_ge_def)

lemma should_sample_reject:
  "double_le (sampling_rate cfg) (Double_finite 0) \<Longrightarrow> aivory_should_sample cfg draw = (False, False)"
  by (simp add: aivory_should_sample_def double_ge_le_excl)

lemma should_sample_draw:
  "snd (aivory_should_sample cfg draw) \<longleftrightarrow>
     (sampling_rate cfg = Double_nan
      \<or> (\<exists>r. sampling_rate cfg = Double_finite r \<and> 0 < r \<and> r < 1))"
  by (cases "sampling_rate cfg") (auto simp: aivory_should_sample_def double_ge_def)

lemma should_sample_between:
  "sampling_rate cfg = Double_finite r \<Longrightarrow> 0 < r \<Longrightarrow> r < 1 \<Longrightarrow>
     aivory_should_sample cfg draw = (double_lt draw (Double_finite r), True)"
  by (simp add: aivory_should_sample_def double_ge_def)

lemma should_sample_nan:
  "sampling_rate cfg = Double_nan \<Longrightarrow> aivory_should_sample cfg draw = (False, True)"
  by (cases draw) (simp_all add: aivory_should_sample_def double_ge_def)

text \<open>
  Claim C8, as the code has it. For every configuration \<^verbatim>\<open>aivory_should_sample\<close> returns
  true without a draw when the rate is at least 1.0, and false without a draw when the
  rate is at most 0.0. It consults the pseudo-random draw exactly for the other rates:
  the finite rates strictly between 0 and 1, where the result is whether the draw is
  below the rate, and a NaN rate, which compares false both times and for which the
  result is false.
\<close>

theorem aivory_should_sample_law:
  "(double_ge (sampling_rate cfg) (Double_finite 1)
      \<longrightarrow> aivory_should_sample cfg draw = (True, False))
   \<and> (double_le (sampling_rate cfg) (Double_finite 0)
      \<longrightarrow> aivory_should_sample cfg draw = (False, False))
   \<and> (snd (aivory_should_sample cfg draw) \<longleftrightarrow>
        (sampling_rate cfg = Double_nan
         \<or> (\<exists>r. sampling_rate cfg = Double_finite r \<and> 0 < r \<and> r < 1)))
   \<and> (sampling_rate cfg = Double_finite r \<and> 0 < r \<and> r < 1
      \<longrightarrow> aivory_should_sample cfg draw = (double_lt draw (Double_finite r), True))
   \<and> (sampling_rate cfg = Double_nan \<longrightarrow> aivory_should_sample cfg draw = (False, True))"
  using should_sample_accept [of cfg draw] should_sample_reject [of cfg draw]
    should_sample_draw [of cfg draw] should_sample_between [of cfg r draw]
    should_sample_nan [of cfg draw]
  by blast

text \<open>The theorem at the rates 1.5, -1 and 0.5, with the draw 0.25.\<close>

theorem aivory_should_sample_law_witness:
  "aivory_should_sample (example_config\<lparr>sampling_rate := Double_finite (3 / 2)\<rparr>) (Double_finite (1 / 4))
     = (True, False)
   \<and> aivory_should_sample (example_config\<lparr>sampling_rate := Double_finite (- 1)\<rparr>) (Double_finite (1 / 4))
     = (False, False)
   \<and> aivory_should_sample (example_config\<lparr>sampling_rate := Double_finite (1 / 2)\<rparr>) (Double_finite (1 / 4))
     = (True, True)"
proof -
  have a: "aivory_should_sample (example_config\<lparr>sampling_rate := Double_finite (3 / 2)\<rparr>)
      (Double_finite (1 / 4)) = (True, False)"
    using aivory_should_sample_law
      [of "example_config\<lparr>sampling_rate := Double_finite (3 / 2)\<rparr>" "Double_finite (1 / 4)" 0]
    by (simp add: double_ge_def)
  have b: "aivory_should_sample (example_config\<lparr>sampling_rate := Double_finite (- 1)\<rparr>)
      (Double_finite (1 / 4)) = (False, False)"
    using aivory_should_sample_law
      [of "example_config\<lparr>sampling_rate := Double_finite (- 1)\<rparr>" "Double_finite (1 / 4)" 0]
    by simp
  have c: "aivory_should_sample (example_config\<lparr>sampling_rate := Double_finite (1 / 2)\<rparr>)
      (Double_finite (1 / 4)) = (True, True)"
    using aivory_should_sample_law
      [of "example_config\<lparr>sampling_rate := Double_finite (1 / 2)\<rparr>" "Double_finite (1 / 4)" "1 / 2"]
    by simp
  from a b c show ?thesis by blast
qed

text \<open>
  Claim C8 as stated fails for a NaN rate (which \<^verbatim>\<open>atof\<close> in \<^verbatim>\<open>aivory_config_default\<close>
  yields for the text \<open>nan\<close>): the rate is not strictly between 0 and 1, and the draw is
  consulted all the same.
\<close>

theorem aivory_should_sample_nan_counterexample:
  "\<not> double_lt (Double_finite 0) (sampling_rate (example_config\<lparr>sampling_rate := Double_nan\<rparr>))
   \<and> \<not> double_lt (sampling_rate (example_config\<lparr>sampling_rate := Double_nan\<rparr>)) (Double_finite 1)
   \<and> aivory_should_sample (example_config\<lparr>sampling_rate := Double_nan\<rparr>) (Double_finite (1 / 4))
       = (False, True)"
  by (simp add: aivory_should_sample_def double_ge_def)

section \<open>Properties of the report builder\<close>

























section \<open>Properties of the signal handler\<close>

lemma ws_send_exception_flag:
  "g_handling_signal (fst (aivory_ws_send_exception env json_ptr w)) = g_handling_signal w"
  by (simp add: aivory_ws_send_exception_def split: option.splits prod.splits)

lemma signal_report_flag:
  "signal_report pf env addr sig w = Some (events, w2, effects)
     \<Longrightarrow> g_handling_signal w2 = g_handling_signal w"
  by (auto simp: signal_report_def Let_def split: prod.splits option.splits if_splits
        dest: arg_cong [where f = "\<lambda>r. g_handling_signal (fst r)"]
        simp: ws_send_exception_flag)

lemma signal_report_no_exit:
  "signal_report pf env addr sig w = Some (events, w2, effects)
     \<Longrightarrow> Ev_exit n \<notin> set events \<and> Ev_set_handling_flag \<notin> set events"
  by (auto simp: signal_report_def Let_def split: prod.splits option.splits if_splits)

lemma signal_handler_reentry:
  "g_handling_signal w \<noteq> 0 \<Longrightarrow> signal_handler pf env addr sig w = ([Ev_exit (128 + sig)], w, [])"
  by (simp add: signal_handler_def)

lemma signal_handler_first_entry:
  assumes "g_handling_signal w = 0"
  shows "\<exists>rest. fst (signal_handler pf env addr sig w) = Ev_set_handling_flag # rest
           \<and> (\<forall>n. Ev_exit n \<notin> set rest)"
    and "g_handling_signal (fst (snd (signal_handler pf env addr sig w))) = 1"
proof -
  define w1 where "w1 = w\<lparr>g_handling_signal := 1\<rparr>"
  define r where "r = (if g_agent_ref w1 \<and> initialized (g_agent w1)
                    then signal_report pf env addr sig w1 else Some ([], w1, []))"
  have both: "(\<exists>rest. fst (signal_handler pf env addr sig w) = Ev_set_handling_flag # rest
           \<and> (\<forall>n. Ev_exit n \<notin> set rest))
      \<and> g_handling_signal (fst (snd (signal_handler pf env addr sig w))) = 1"
  proof (cases r)
    case None
    have "signal_handler pf env addr sig w =
        ([Ev_set_handling_flag, Ev_capture_backtrace 2,
          Ev_calculate_fingerprint (signal_name sig), Ev_undefined_behaviour], w1, [])"
      using assms None unfolding r_def w1_def
      by (simp add: signal_handler_def Let_def)
    then show ?thesis by (simp add: w1_def)
  next
    case (Some t)
    obtain events w2 effects where t: "t = (events, w2, effects)" by (cases t) auto
    have r3: "r = Some (events, w2, effects)" using Some t by simp
    have ne: "\<forall>n. Ev_exit n \<notin> set events"
      using signal_report_no_exit [of pf env addr sig w1 events w2 effects] r3
      by (auto simp: r_def split: if_splits)
    have f2: "g_handling_signal w2 = 1"
      using signal_report_flag [of pf env addr sig w1 events w2 effects] r3
      by (auto simp: r_def w1_def split: if_splits)
    have h: "signal_handler pf env addr sig w =
       (case original_handler sig w2 of
          None \<Rightarrow> (Ev_set_handling_flag # events @ [Ev_signal_dfl sig, Ev_raise sig],
                    w2\<lparr>disposition := (disposition w2)(sig := SIG_DFL)\<rparr>, effects)
        | Some h \<Rightarrow>
            if h \<noteq> SIG_DFL \<and> h \<noteq> SIG_IGN
            then (Ev_set_handling_flag # events @ [Ev_sigaction sig h, Ev_raise sig],
                  w2\<lparr>disposition := (disposition w2)(sig := h)\<rparr>, effects)
            else (Ev_set_handling_flag # events @ [Ev_signal_dfl sig, Ev_raise sig],
                  w2\<lparr>disposition := (disposition w2)(sig := SIG_DFL)\<rparr>, effects))"
      using assms r3 unfolding r_def w1_def
      by (simp add: signal_handler_def Let_def)
    show ?thesis using ne f2 by (auto simp: h split: option.splits)
  qed
  from both show "\<exists>rest. fst (signal_handler pf env addr sig w) = Ev_set_handling_flag # rest
           \<and> (\<forall>n. Ev_exit n \<notin> set rest)" by blast
  from both show "g_handling_signal (fst (snd (signal_handler pf env addr sig w))) = 1" by blast
qed


text \<open>
  Claim C7. When the handler is entered with the handling flag set, all it does is
  \<^verbatim>\<open>_exit(128 + sig)\<close>: no capture, no assembly, no send, and the globals are untouched.
  When it is entered with the flag clear, its first event is the store that sets the
  flag, nothing it does afterwards is an exit, and the flag is 1 in the globals it
  leaves.
\<close>

theorem signal_handler_reentry_guard:
  "(g_handling_signal w \<noteq> 0
      \<longrightarrow> signal_handler pf env addr sig w = ([Ev_exit (128 + sig)], w, []))
   \<and> (g_handling_signal w = 0
      \<longrightarrow> (\<exists>rest. fst (signal_handler pf env addr sig w) = Ev_set_handling_flag # rest
                  \<and> (\<forall>n. Ev_exit n \<notin> set rest))
          \<and> g_handling_signal (fst (snd (signal_handler pf env addr sig w))) = 1)"
  using signal_handler_reentry [of w pf env addr sig]
    signal_handler_first_entry [of w pf env addr sig]
  by blast

text \<open>
  The theorem at a segmentation fault after the example initialisation: on first entry
  the flag is set first, and a second entry, with the flag set, exits with 139.
\<close>

theorem signal_handler_reentry_guard_witness:
  "g_handling_signal example_globals = 0
   \<and> hd (fst (signal_handler linux_x86_64 example_capture_env ''0x10'' SIGSEGV example_globals))
       = Ev_set_handling_flag
   \<and> g_handling_signal (fst (snd (signal_handler linux_x86_64 example_capture_env ''0x10''
         SIGSEGV example_globals))) = 1
   \<and> signal_handler linux_x86_64 example_capture_env ''0x10'' SIGSEGV
        (fst (snd (signal_handler linux_x86_64 example_capture_env ''0x10'' SIGSEGV
                     example_globals)))
       = ([Ev_exit 139],
          fst (snd (signal_handler linux_x86_64 example_capture_env ''0x10'' SIGSEGV
                      example_globals)), [])"
proof -
  let ?w = example_globals
  let ?w' = "fst (snd (signal_handler linux_x86_64 example_capture_env ''0x10'' SIGSEGV ?w))"
  have z: "g_handling_signal ?w = 0"
    by (simp add: example_globals_def aivory_init_def short_strings_config_def
        example_config_def example_init_env_def initial_globals_def
        zero_agent_def Let_def aivory_install_signal_handlers_def aivory_ws_connect_def)
  from signal_handler_reentry_guard [of ?w linux_x86_64 example_capture_env "''0x10''" SIGSEGV] z
  have a: "\<exists>rest. fst (signal_handler linux_x86_64 example_capture_env ''0x10'' SIGSEGV ?w)
              = Ev_set_handling_flag # rest \<and> (\<forall>n. Ev_exit n \<notin> set rest)"
    and b: "g_handling_signal ?w' = 1"
    by blast+
  from a have a': "hd (fst (signal_handler linux_x86_64 example_capture_env ''0x10'' SIGSEGV ?w))
       = Ev_set_handling_flag" by auto
  from b have nz: "g_handling_signal ?w' \<noteq> 0" by simp
  from signal_handler_reentry_guard [of ?w' linux_x86_64 example_capture_env "''0x10''" SIGSEGV] nz
  have c: "signal_handler linux_x86_64 example_capture_env ''0x10'' SIGSEGV ?w'
             = ([Ev_exit (128 + SIGSEGV)], ?w', [])"
    by blast
  from z a' b c show ?thesis by (simp add: SIGSEGV_def)
qed

end
